theory Spec2Isabelle
  imports Complex_Main
begin

section \<open>JavaScript numbers\<close>

text \<open>
  The TypeScript sources compute with \<^verbatim>\<open>number\<close>, the IEEE 754 double. A finite double
  is modelled by its value, a real; \<open>Fin 0\<close> is \<^verbatim>\<open>+0\<close> and \<open>NegZero\<close> is \<^verbatim>\<open>-0\<close>. Every
  arithmetic operation computes the exact result and rounds it to the nearest double, the
  even one of two, as the hardware does.
\<close>

datatype number = Fin real | NegZero | PosInf | NegInf | NaN

text \<open>
  The binary exponent of a positive real, by search from 0: \<open>expo_up\<close> for \<open>x \<ge> 1\<close> returns
  \<open>e\<close> with \<open>2^e \<le> x < 2^(e+1)\<close>, at most 1023; \<open>expo_down\<close> for \<open>x < 1\<close> returns \<open>n\<close> with
  \<open>2^-n \<le> x < 2^-(n-1)\<close>, at most 1022, the exponent of the subnormal numbers.
\<close>

function expo_up :: "real \<Rightarrow> nat \<Rightarrow> nat" where
  "expo_up x n = (if x < 2 ^ (n + 1) \<or> 1023 \<le> n then n else expo_up x (n + 1))"
  by pat_completeness auto
termination
  by (relation "measure (\<lambda>(x, n). 1023 - n)") auto

function expo_down :: "real \<Rightarrow> nat \<Rightarrow> nat" where
  "expo_down x n = (if 1 \<le> x * 2 ^ n \<or> 1022 \<le> n then n else expo_down x (n + 1))"
  by pat_completeness auto
termination
  by (relation "measure (\<lambda>(x, n). 1022 - n)") auto

declare expo_up.simps [simp del] expo_down.simps [simp del]

text \<open>
  The distance between neighbouring doubles around a positive real: \<open>2^(e-52)\<close> for the
  binary exponent \<open>e\<close>. The smallest one, \<open>2^-1074\<close>, is the smallest positive double.
\<close>

definition min_quantum :: real where
  "min_quantum = 1 / 2 ^ 1074"

definition quantum :: "real \<Rightarrow> real" where
  "quantum x = (if 1 \<le> x then 2 ^ expo_up x 0 / 2 ^ 52 else 1 / (2 ^ expo_down x 1 * 2 ^ 52))"

definition round_even :: "real \<Rightarrow> int" where
  "round_even y =
     (let f = \<lfloor>y\<rfloor>; r = y - of_int f
      in if r < 1 / 2 then f else if 1 / 2 < r then f + 1 else if even f then f else f + 1)"

text \<open>Rounding to the nearest double, ties to even, before the check for overflow.\<close>

definition round_double :: "real \<Rightarrow> real" where
  "round_double x =
     (if x = 0 then 0
      else sgn x * of_int (round_even (\<bar>x\<bar> / quantum \<bar>x\<bar>)) * quantum \<bar>x\<bar>)"

text \<open>
  From this magnitude on a result rounds to an infinity: half a step above the largest
  double, \<open>2^1024 - 2^971\<close>.
\<close>

definition overflow_threshold :: real where
  "overflow_threshold = 2 ^ 1024 - 2 ^ 970"

text \<open>
  The double for an exact result \<open>x\<close>. A result that is zero or rounds to zero keeps a
  sign: that of \<open>x\<close>, and for \<open>x = 0\<close> the sign \<open>neg\<close> that the operation gives.
\<close>

definition to_double :: "bool \<Rightarrow> real \<Rightarrow> number" where
  "to_double neg x =
     (if overflow_threshold \<le> \<bar>x\<bar> then (if x < 0 then NegInf else PosInf)
      else if round_double x = 0 then (if x < 0 \<or> (x = 0 \<and> neg) then NegZero else Fin 0)
      else Fin (round_double x))"

fun is_finite :: "number \<Rightarrow> bool" where
  "is_finite (Fin x) = True"
| "is_finite NegZero = True"
| "is_finite y = False"

text \<open>The sign bit, and the value of a finite number.\<close>

fun sign_neg :: "number \<Rightarrow> bool" where
  "sign_neg (Fin x) = (x < 0)"
| "sign_neg NegZero = True"
| "sign_neg NegInf = True"
| "sign_neg y = False"

fun val :: "number \<Rightarrow> real" where
  "val (Fin x) = x"
| "val y = 0"

definition inf_of :: "bool \<Rightarrow> number" where
  "inf_of neg = (if neg then NegInf else PosInf)"

definition zero_of :: "bool \<Rightarrow> number" where
  "zero_of neg = (if neg then NegZero else Fin 0)"

fun js_neg :: "number \<Rightarrow> number" where
  "js_neg (Fin x) = (if x = 0 then NegZero else Fin (- x))"
| "js_neg NegZero = Fin 0"
| "js_neg PosInf = NegInf"
| "js_neg NegInf = PosInf"
| "js_neg NaN = NaN"

definition js_add :: "number \<Rightarrow> number \<Rightarrow> number" where
  "js_add a b =
     (if a = NaN \<or> b = NaN then NaN
      else if is_finite a \<and> is_finite b then to_double (sign_neg a \<and> sign_neg b) (val a + val b)
      else if is_finite a then b
      else if is_finite b then a
      else if a = b then a else NaN)"

definition js_sub :: "number \<Rightarrow> number \<Rightarrow> number" where
  "js_sub a b = js_add a (js_neg b)"

definition js_mul :: "number \<Rightarrow> number \<Rightarrow> number" where
  "js_mul a b =
     (if a = NaN \<or> b = NaN then NaN
      else if is_finite a \<and> is_finite b
        then to_double (sign_neg a \<noteq> sign_neg b) (val a * val b)
      else if (is_finite a \<and> val a = 0) \<or> (is_finite b \<and> val b = 0) then NaN
      else inf_of (sign_neg a \<noteq> sign_neg b))"

definition js_div :: "number \<Rightarrow> number \<Rightarrow> number" where
  "js_div a b =
     (if a = NaN \<or> b = NaN then NaN
      else if is_finite a \<and> is_finite b then
        (if val b = 0 then (if val a = 0 then NaN else inf_of (sign_neg a \<noteq> sign_neg b))
         else to_double (sign_neg a \<noteq> sign_neg b) (val a / val b))
      else if is_finite a then zero_of (sign_neg a \<noteq> sign_neg b)
      else if is_finite b then inf_of (sign_neg a \<noteq> sign_neg b)
      else NaN)"

fun js_abs :: "number \<Rightarrow> number" where
  "js_abs (Fin x) = Fin \<bar>x\<bar>"
| "js_abs NegZero = Fin 0"
| "js_abs PosInf = PosInf"
| "js_abs NegInf = PosInf"
| "js_abs NaN = NaN"

text \<open>
  The comparisons \<^verbatim>\<open>a < b\<close> and \<^verbatim>\<open>a <= b\<close>: false as soon as an operand is \<^verbatim>\<open>NaN\<close>; the
  two zeros are equal.
\<close>

definition js_lt :: "number \<Rightarrow> number \<Rightarrow> bool" where
  "js_lt a b =
     (if a = NaN \<or> b = NaN then False
      else if is_finite a \<and> is_finite b then val a < val b
      else if a = NegInf then b \<noteq> NegInf
      else if b = PosInf then a \<noteq> PosInf
      else False)"

definition js_le :: "number \<Rightarrow> number \<Rightarrow> bool" where
  "js_le a b = (if a = NaN \<or> b = NaN then False else \<not> js_lt b a)"

definition js_gt :: "number \<Rightarrow> number \<Rightarrow> bool" where
  "js_gt a b = js_lt b a"

text \<open>
  \<^verbatim>\<open>x.toFixed(d)\<close> returns a string. For a finite \<open>x\<close> below \<open>10^21\<close> in magnitude it prints
  the integer \<open>n\<close> for which \<open>n / 10^d\<close> is closest to \<open>\<bar>x\<bar>\<close>, the larger one of two, with
  \<open>d\<close> fraction digits and the sign of \<open>x\<close>; from \<open>10^21\<close> on, and for the infinities and
  \<^verbatim>\<open>NaN\<close>, it prints the number as \<^verbatim>\<open>String\<close> does. \<^verbatim>\<open>Number\<close> reads the string back: the
  decimal rounded to the nearest double, or the number printed.
\<close>

datatype fixed = Decimal bool int nat | Printed number

definition round_half_up :: "nat \<Rightarrow> real \<Rightarrow> int" where
  "round_half_up d x = \<lfloor>x * 10 ^ d + 1 / 2\<rfloor>"

definition toFixed_string :: "number \<Rightarrow> nat \<Rightarrow> fixed" where
  "toFixed_string a d =
     (if \<not> is_finite a then Printed a
      else if val a < 0 then
        (if 10 ^ 21 \<le> - val a then Printed a else Decimal True (round_half_up d (- val a)) d)
      else
        (if 10 ^ 21 \<le> val a then Printed a else Decimal False (round_half_up d (val a)) d))"

fun Number :: "fixed \<Rightarrow> number" where
  "Number (Decimal neg n d) =
     to_double neg ((if neg then - 1 else 1) * of_int n / 10 ^ d)"
| "Number (Printed a) = a"

definition toFixed :: "number \<Rightarrow> nat \<Rightarrow> number" where
  "toFixed a d = Number (toFixed_string a d)"

section \<open>Validation and metrics\<close>

record TradingLimits =
  minInvestment :: number
  minOrderValue :: number
  maxGridCount :: number
  minGridCount :: number
  minProfitPerGrid :: number
  maxProfitPerGrid :: number

text \<open>The literal \<^verbatim>\<open>0.1\<close> is the double nearest to one tenth.\<close>

definition TRADING_LIMITS :: TradingLimits where
  "TRADING_LIMITS =
     \<lparr>minInvestment = Fin 5, minOrderValue = Fin 2, maxGridCount = Fin 50, minGridCount = Fin 3,
      minProfitPerGrid = Fin (round_double (1 / 10)), maxProfitPerGrid = Fin 10\<rparr>"

record GridConfig =
  symbol :: string
  gridCount :: number
  upperPrice :: number
  lowerPrice :: number
  investment :: number
  profitPerGrid :: number

text \<open>
  The messages of \<^verbatim>\<open>validateGridConfig\<close>, one constructor per message of the
  source, in the order of the source. The order-size message prints the order size with
  \<^verbatim>\<open>toFixed(2)\<close>, and the constructor carries what is printed.
\<close>

datatype config_error =
    MinInvestmentError
  | MinGridCountError
  | MaxGridCountError
  | PriceOrderError
  | LowerPriceError
  | MinProfitError
  | MaxProfitError
  | OrderSizeError fixed

datatype config_warning =
    HighGridCountWarning
  | LowProfitWarning
  | LargeRangeWarning

record ValidationResult =
  isValid :: bool
  errors :: "config_error list"
  warnings :: "config_warning list"

text \<open>\<^verbatim>\<open>if (b) xs.push(x)\<close>\<close>

definition push_if :: "bool \<Rightarrow> 'a \<Rightarrow> 'a list \<Rightarrow> 'a list" where
  "push_if b x xs = (if b then xs @ [x] else xs)"

definition validateGridConfig :: "GridConfig \<Rightarrow> ValidationResult" where
  "validateGridConfig c =
     (let errors0 = [];
          warnings0 = [];
          errors1 = push_if (js_lt (investment c) (minInvestment TRADING_LIMITS))
                      MinInvestmentError errors0;
          errors2 = push_if (js_lt (gridCount c) (minGridCount TRADING_LIMITS))
                      MinGridCountError errors1;
          errors3 = push_if (js_gt (gridCount c) (maxGridCount TRADING_LIMITS))
                      MaxGridCountError errors2;
          errors4 = push_if (js_le (upperPrice c) (lowerPrice c)) PriceOrderError errors3;
          errors5 = push_if (js_le (lowerPrice c) (Fin 0)) LowerPriceError errors4;
          errors6 = push_if (js_lt (profitPerGrid c) (minProfitPerGrid TRADING_LIMITS))
                      MinProfitError errors5;
          errors7 = push_if (js_gt (profitPerGrid c) (maxProfitPerGrid TRADING_LIMITS))
                      MaxProfitError errors6;
          orderSize = js_div (investment c) (gridCount c);
          errors8 = push_if (js_lt orderSize (minOrderValue TRADING_LIMITS))
                      (OrderSizeError (toFixed_string orderSize 2)) errors7;
          warnings1 = push_if (js_gt (gridCount c) (Fin 20)) HighGridCountWarning warnings0;
          warnings2 = push_if (js_lt (profitPerGrid c) (Fin (1 / 2))) LowProfitWarning warnings1;
          priceRange = js_mul (js_div (js_sub (upperPrice c) (lowerPrice c)) (lowerPrice c))
                         (Fin 100);
          warnings3 = push_if (js_gt priceRange (Fin 50)) LargeRangeWarning warnings2
      in \<lparr>isValid = (length errors8 = 0), errors = errors8, warnings = warnings3\<rparr>)"

record GridMetrics =
  priceStep :: number
  orderSize :: number
  totalPotentialProfit :: number
  priceRange :: number
  averagePrice :: number

definition calculateGridMetrics :: "GridConfig \<Rightarrow> GridMetrics" where
  "calculateGridMetrics c =
     (let priceStep0 = js_div (js_sub (upperPrice c) (lowerPrice c)) (js_sub (gridCount c) (Fin 1));
          orderSize0 = js_div (investment c) (gridCount c);
          totalPotentialProfit0 = js_div (js_mul (investment c) (profitPerGrid c)) (Fin 100);
          priceRange0 = js_mul (js_div (js_sub (upperPrice c) (lowerPrice c)) (lowerPrice c))
                          (Fin 100)
      in \<lparr>priceStep = toFixed priceStep0 6,
          orderSize = toFixed orderSize0 2,
          totalPotentialProfit = toFixed totalPotentialProfit0 2,
          priceRange = toFixed priceRange0 2,
          averagePrice = toFixed (js_div (js_add (upperPrice c) (lowerPrice c)) (Fin 2)) 2\<rparr>)"

section \<open>The grid strategy\<close>

record GridLevel =
  price :: number
  buyOrderId :: "string option"
  sellOrderId :: "string option"
  isFilled :: bool

text \<open>The fields of a \<^verbatim>\<open>GridTradingStrategy\<close> object.\<close>

record GridTradingStrategy =
  config :: GridConfig
  gridLevels :: "GridLevel list"
  isActive :: bool

datatype order_type = Buy | Sell

text \<open>
  What building a strategy can throw. The source has no \<^verbatim>\<open>throw\<close>: the one exception is
  the \<^verbatim>\<open>RangeError\<close> of \<^verbatim>\<open>push\<close> on an array that already holds \<open>2^32 - 1\<close> elements, the
  largest length of an array. \<open>InvalidConfiguration\<close> is the error that the specification
  names for the builder; nothing produces it.
\<close>

datatype strategy_error = InvalidConfiguration | RangeError

text \<open>
  The loop of \<^verbatim>\<open>initializeGrid\<close>: \<open>i\<close> counts up from 0 while \<open>i < gridCount\<close>, and each
  round pushes one level. The counter stays below \<open>2^32\<close>, where \<^verbatim>\<open>i++\<close> is exact.
\<close>

function initializeGrid_loop ::
    "GridConfig \<Rightarrow> number \<Rightarrow> nat \<Rightarrow> GridLevel list \<Rightarrow> strategy_error + GridLevel list" where
  "initializeGrid_loop c step i levels =
     (if js_lt (Fin (real i)) (gridCount c) then
        (let p = js_add (lowerPrice c) (js_mul (Fin (real i)) step)
         in if length levels < 4294967295
            then initializeGrid_loop c step (Suc i)
                   (levels @
                      [\<lparr>price = toFixed p 6, buyOrderId = None, sellOrderId = None,
                        isFilled = False\<rparr>])
            else Inl RangeError)
      else Inr levels)"
  by pat_completeness auto
termination
  by (relation "measure (\<lambda>(c, step, i, levels). 4294967295 - length levels)") auto

declare initializeGrid_loop.simps [simp del]

text \<open>The level that round \<open>i\<close> of the loop pushes.\<close>

definition level_at :: "GridConfig \<Rightarrow> number \<Rightarrow> nat \<Rightarrow> GridLevel" where
  "level_at c step i =
     \<lparr>price = toFixed (js_add (lowerPrice c) (js_mul (Fin (real i)) step)) 6,
      buyOrderId = None, sellOrderId = None, isFilled = False\<rparr>"

definition initializeGrid :: "GridTradingStrategy \<Rightarrow> strategy_error + GridTradingStrategy" where
  "initializeGrid s =
     (let step = js_div (js_sub (upperPrice (config s)) (lowerPrice (config s)))
                   (js_sub (gridCount (config s)) (Fin 1))
      in case initializeGrid_loop (config s) step 0 (gridLevels s) of
           Inl e \<Rightarrow> Inl e
         | Inr levels \<Rightarrow> Inr (s\<lparr>gridLevels := levels\<rparr>))"

text \<open>The constructor: \<open>Inr\<close> of the new object, or \<open>Inl\<close> of what it throws.\<close>

definition new_GridTradingStrategy :: "GridConfig \<Rightarrow> strategy_error + GridTradingStrategy" where
  "new_GridTradingStrategy c = initializeGrid \<lparr>config = c, gridLevels = [], isActive = False\<rparr>"

definition getGridLevels :: "GridTradingStrategy \<Rightarrow> GridLevel list" where
  "getGridLevels s = gridLevels s"


definition getOrderSize :: "GridTradingStrategy \<Rightarrow> number" where
  "getOrderSize s = js_div (investment (config s)) (gridCount (config s))"

definition getProfitPrice :: "GridTradingStrategy \<Rightarrow> number \<Rightarrow> number" where
  "getProfitPrice s buyPrice =
     js_mul buyPrice (js_add (Fin 1) (js_div (profitPerGrid (config s)) (Fin 100)))"

text \<open>
  \<^verbatim>\<open>gridLevels.find((l) => Math.abs(l.price - price) < 0.000001)\<close> returns the first
  level that matches, and the caller then assigns to a field of that object. Every slot of
  the array holds an object of its own (each is pushed as a fresh literal), so the
  assignment changes the array at the position of the first match: the model finds that
  position. The literal \<^verbatim>\<open>0.000001\<close> is the double nearest to \<open>10^-6\<close>.
\<close>

definition price_matches :: "number \<Rightarrow> GridLevel \<Rightarrow> bool" where
  "price_matches p l =
     js_lt (js_abs (js_sub (price l) p)) (Fin (round_double (1 / 1000000)))"

fun find_from :: "('a \<Rightarrow> bool) \<Rightarrow> 'a list \<Rightarrow> nat \<Rightarrow> nat option" where
  "find_from P [] i = None"
| "find_from P (x # xs) i = (if P x then Some i else find_from P xs (Suc i))"

definition find_level :: "number \<Rightarrow> GridLevel list \<Rightarrow> nat option" where
  "find_level p levels = find_from (price_matches p) levels 0"

definition updateGridLevel ::
    "number \<Rightarrow> string \<Rightarrow> order_type \<Rightarrow> GridTradingStrategy \<Rightarrow> GridTradingStrategy" where
  "updateGridLevel p orderId type s =
     (case find_level p (gridLevels s) of
        Some i \<Rightarrow>
          (if type = Buy
           then s\<lparr>gridLevels := (gridLevels s)[i := (gridLevels s ! i)\<lparr>buyOrderId := Some orderId\<rparr>]\<rparr>
           else s\<lparr>gridLevels := (gridLevels s)[i := (gridLevels s ! i)\<lparr>sellOrderId := Some orderId\<rparr>]\<rparr>)
      | None \<Rightarrow> s)"

definition markLevelFilled :: "number \<Rightarrow> GridTradingStrategy \<Rightarrow> GridTradingStrategy" where
  "markLevelFilled p s =
     (case find_level p (gridLevels s) of
        Some i \<Rightarrow> s\<lparr>gridLevels := (gridLevels s)[i := (gridLevels s ! i)\<lparr>isFilled := True\<rparr>]\<rparr>
      | None \<Rightarrow> s)"

definition getConfig :: "GridTradingStrategy \<Rightarrow> GridConfig" where
  "getConfig s = config s"

definition setActive :: "bool \<Rightarrow> GridTradingStrategy \<Rightarrow> GridTradingStrategy" where
  "setActive active s = s\<lparr>isActive := active\<rparr>"

definition isStrategyActive :: "GridTradingStrategy \<Rightarrow> bool" where
  "isStrategyActive s = isActive s"

text \<open>
  The public operations of a strategy object, as values, and a run of a sequence of them.
  The getters return a value to the caller and leave the object as it is.
\<close>

datatype strategy_op =
    UpdateGridLevel number string order_type
  | MarkLevelFilled number
  | SetActive bool
  | GetGridLevels
  | GetOrderSize
  | GetProfitPrice number
  | GetConfig
  | IsStrategyActive

fun apply_op :: "strategy_op \<Rightarrow> GridTradingStrategy \<Rightarrow> GridTradingStrategy" where
  "apply_op (UpdateGridLevel p orderId type) s = updateGridLevel p orderId type s"
| "apply_op (MarkLevelFilled p) s = markLevelFilled p s"
| "apply_op (SetActive active) s = setActive active s"
| "apply_op GetGridLevels s = s"
| "apply_op GetOrderSize s = s"
| "apply_op (GetProfitPrice p) s = s"
| "apply_op GetConfig s = s"
| "apply_op IsStrategyActive s = s"

fun run_ops :: "strategy_op list \<Rightarrow> GridTradingStrategy \<Rightarrow> GridTradingStrategy" where
  "run_ops [] s = s"
| "run_ops (x # xs) s = run_ops xs (apply_op x s)"

text \<open>
  The fill states that the specification names for a level. A \<^verbatim>\<open>GridLevel\<close> of the source
  has no such field: the state is read off the fields that it has. A level that is not
  filled is \<open>Empty\<close> without a buy order and \<open>BuyOpen\<close> with one; a filled level is
  \<open>BuyFilled\<close> without a sell order and \<open>SellOpen\<close> with one. No level reads as
  \<open>SellFilled\<close>, since a fill of a filled level changes nothing.
\<close>

datatype fill_state = Empty | BuyOpen | BuyFilled | SellOpen | SellFilled

definition level_state :: "GridLevel \<Rightarrow> fill_state" where
  "level_state l =
     (if isFilled l then (if sellOrderId l = None then BuyFilled else SellOpen)
      else (if buyOrderId l = None then Empty else BuyOpen))"

text \<open>The number of rounds of the loop of \<^verbatim>\<open>initializeGrid\<close> for a grid count.\<close>

fun rounds :: "number \<Rightarrow> nat" where
  "rounds (Fin g) = nat \<lceil>g\<rceil>"
| "rounds y = 0"

text \<open>
  Rounding to \<open>d\<close> decimal places as the specification words it: the multiple of \<open>10^-d\<close>
  nearest to \<open>y\<close>, and of two that are equally near the one farther from zero.
\<close>

definition nearest_decimal :: "nat \<Rightarrow> real \<Rightarrow> real" where
  "nearest_decimal d y = sgn y * of_int \<lfloor>\<bar>y\<bar> * 10 ^ d + 1 / 2\<rfloor> / 10 ^ d"

text \<open>
  The number that a double \<open>y\<close>, not negative, becomes when it is printed with \<open>d\<close>
  decimals and read back: the double nearest to \<open>y\<close> rounded to \<open>d\<close> decimals. From
  \<open>10^21\<close> on a number is printed in full, and read back as it was.
\<close>

definition to_decimals :: "nat \<Rightarrow> real \<Rightarrow> real" where
  "to_decimals d y = (if 10 ^ 21 \<le> y then y else round_double (nearest_decimal d y))"


section \<open>Example configurations\<close>

text \<open>The configuration whose order size, 5 / 3, is below the minimum order value.\<close>

definition small_config :: GridConfig where
  "small_config =
     \<lparr>symbol = ''BTCUSDT'', gridCount = Fin 3, upperPrice = Fin 42000, lowerPrice = Fin 40000,
      investment = Fin 5, profitPerGrid = Fin 1\<rparr>"

text \<open>A configuration all of whose numbers are \<^verbatim>\<open>NaN\<close>.\<close>

definition nan_config :: GridConfig where
  "nan_config =
     \<lparr>symbol = ''BTCUSDT'', gridCount = NaN, upperPrice = NaN, lowerPrice = NaN,
      investment = NaN, profitPerGrid = NaN\<rparr>"

text \<open>The configuration of the worked example: three levels between 40000 and 42000.\<close>

definition example_config :: GridConfig where
  "example_config =
     \<lparr>symbol = ''BTCUSDT'', gridCount = Fin 3, upperPrice = Fin 42000, lowerPrice = Fin 40000,
      investment = Fin 300, profitPerGrid = Fin 1\<rparr>"

definition example_strategy :: GridTradingStrategy where
  "example_strategy =
     \<lparr>config = example_config,
      gridLevels =
        [\<lparr>price = Fin 40000, buyOrderId = None, sellOrderId = None, isFilled = False\<rparr>,
         \<lparr>price = Fin 41000, buyOrderId = None, sellOrderId = None, isFilled = False\<rparr>,
         \<lparr>price = Fin 42000, buyOrderId = None, sellOrderId = None, isFilled = False\<rparr>],
      isActive = False\<rparr>"

text \<open>A configuration with a single grid line, and one with none.\<close>

definition single_config :: GridConfig where
  "single_config =
     \<lparr>symbol = ''BTCUSDT'', gridCount = Fin 1, upperPrice = Fin 42000, lowerPrice = Fin 40000,
      investment = Fin 300, profitPerGrid = Fin 1\<rparr>"

definition empty_config :: GridConfig where
  "empty_config =
     \<lparr>symbol = ''BTCUSDT'', gridCount = Fin 0, upperPrice = Fin 42000, lowerPrice = Fin 40000,
      investment = Fin 300, profitPerGrid = Fin 1\<rparr>"


text \<open>The example configuration with a profit of 10 per cent, and its strategy.\<close>

definition ten_percent_config :: GridConfig where
  "ten_percent_config =
     \<lparr>symbol = ''BTCUSDT'', gridCount = Fin 3, upperPrice = Fin 42000, lowerPrice = Fin 40000,
      investment = Fin 300, profitPerGrid = Fin 10\<rparr>"

definition ten_percent_strategy :: GridTradingStrategy where
  "ten_percent_strategy =
     \<lparr>config = ten_percent_config,
      gridLevels =
        [\<lparr>price = Fin 40000, buyOrderId = None, sellOrderId = None, isFilled = False\<rparr>,
         \<lparr>price = Fin 41000, buyOrderId = None, sellOrderId = None, isFilled = False\<rparr>,
         \<lparr>price = Fin 42000, buyOrderId = None, sellOrderId = None, isFilled = False\<rparr>],
      isActive = False\<rparr>"

text \<open>A configuration with an investment of \<open>2^1023\<close>, about \<open>9 * 10^307\<close>.\<close>

definition huge_config :: GridConfig where
  "huge_config =
     \<lparr>symbol = ''BTCUSDT'', gridCount = Fin 3, upperPrice = Fin 42000, lowerPrice = Fin 40000,
      investment = Fin (2 ^ 1023), profitPerGrid = Fin 2\<rparr>"

text \<open>A configuration whose order size, 81 / 40, lies halfway between 2.02 and 2.03.\<close>

definition halfway_config :: GridConfig where
  "halfway_config =
     \<lparr>symbol = ''BTCUSDT'', gridCount = Fin 40, upperPrice = Fin 42000, lowerPrice = Fin 40000,
      investment = Fin 81, profitPerGrid = Fin 1\<rparr>"


text \<open>
  The calls by which a caller takes the level at price \<open>p\<close> through one round of the grid:
  it records the first buy order, reports the fill, records the paired sell order, reports
  the fill, and records the new buy order.
\<close>

definition lifecycle :: "number \<Rightarrow> string \<Rightarrow> string \<Rightarrow> string \<Rightarrow> strategy_op list" where
  "lifecycle p buy1 sell1 buy2 =
     [UpdateGridLevel p buy1 Buy, MarkLevelFilled p, UpdateGridLevel p sell1 Sell,
      MarkLevelFilled p, UpdateGridLevel p buy2 Buy]"

section \<open>Rounding to the nearest double\<close>

subsection \<open>The exponent search\<close>

lemma expo_up_spec:
  "n \<le> 1023 \<Longrightarrow> 2 ^ n \<le> x \<Longrightarrow>
     n \<le> expo_up x n \<and> expo_up x n \<le> 1023 \<and> 2 ^ expo_up x n \<le> x \<and>
     (x < 2 ^ (expo_up x n + 1) \<or> expo_up x n = 1023)"
proof (induction x n rule: expo_up.induct)
  case (1 x n)
  show ?case
  proof (cases "x < 2 ^ (n + 1) \<or> 1023 \<le> n")
    case True
    then have "expo_up x n = n"
      by (subst expo_up.simps) simp
    with True "1.prems" show ?thesis by auto
  next
    case False
    then have eq: "expo_up x n = expo_up x (n + 1)"
      by (subst expo_up.simps) simp
    from False "1.prems" have "n + 1 \<le> 1023" "2 ^ (n + 1) \<le> x"
      by simp_all
    from "1.IH" [OF False this] show ?thesis
      unfolding eq by simp
  qed
qed

lemma expo_down_spec:
  "1 \<le> n \<Longrightarrow> n \<le> 1022 \<Longrightarrow> x * 2 ^ (n - 1) < 1 \<Longrightarrow>
     n \<le> expo_down x n \<and> expo_down x n \<le> 1022 \<and> x * 2 ^ (expo_down x n - 1) < 1 \<and>
     (1 \<le> x * 2 ^ expo_down x n \<or> expo_down x n = 1022)"
proof (induction x n rule: expo_down.induct)
  case (1 x n)
  show ?case
  proof (cases "1 \<le> x * 2 ^ n \<or> 1022 \<le> n")
    case True
    then have "expo_down x n = n"
      by (subst expo_down.simps) simp
    with True "1.prems" show ?thesis by auto
  next
    case False
    then have eq: "expo_down x n = expo_down x (n + 1)"
      by (subst expo_down.simps) simp
    from False "1.prems" have "1 \<le> n + 1" "n + 1 \<le> 1022" "x * 2 ^ (n + 1 - 1) < 1"
      by simp_all
    from "1.IH" [OF False this] show ?thesis
      unfolding eq by simp
  qed
qed

text \<open>
  The quantum is \<open>2^m\<close> times the smallest positive double, for an index \<open>m\<close> from 0 to
  2045 that brackets \<open>x\<close>.
\<close>

lemma min_quantum_eq: "min_quantum * 2 ^ 1022 * 2 ^ 52 = 1"
  by (simp add: min_quantum_def)

lemma min_quantum_pos: "0 < min_quantum"
  by (simp add: min_quantum_def)

lemma scale_up:
  fixes c :: real
  assumes "c * 2 ^ a * 2 ^ b = 1"
  shows "2 ^ e / 2 ^ b = 2 ^ (e + a) * c"
proof -
  have "2 ^ (e + a) * c * 2 ^ b = 2 ^ e * (c * 2 ^ a * 2 ^ b)"
    by (simp add: power_add)
  also have "\<dots> = 2 ^ e"
    by (simp add: assms)
  finally show ?thesis
    by (simp add: field_simps)
qed

lemma scale_down:
  fixes c :: real
  assumes "c * 2 ^ a * 2 ^ b = 1" "n \<le> a"
  shows "1 / (2 ^ n * 2 ^ b) = 2 ^ (a - n) * c"
proof -
  have "(2::real) ^ a = 2 ^ (a - n) * 2 ^ n"
    using assms(2) by (simp flip: power_add)
  then have "2 ^ (a - n) * c * (2 ^ n * 2 ^ b) = c * 2 ^ a * 2 ^ b"
    by simp
  also have "\<dots> = 1"
    by (rule assms(1))
  finally show ?thesis
    by (simp add: field_simps)
qed

lemma scale_le:
  fixes c :: real
  assumes "c * 2 ^ a * 2 ^ b = 1"
  shows "2 ^ b * (2 ^ m * c) \<le> 2 ^ j \<longleftrightarrow> m \<le> j + a"
proof -
  have pos: "(0::real) < 2 ^ a" by simp
  have "2 ^ b * (2 ^ m * c) * 2 ^ a = 2 ^ m * (c * 2 ^ a * 2 ^ b)"
    by simp
  also have "\<dots> = 2 ^ m"
    by (simp add: assms)
  finally have eq: "2 ^ b * (2 ^ m * c) * 2 ^ a = 2 ^ m" .
  have "2 ^ b * (2 ^ m * c) \<le> 2 ^ j \<longleftrightarrow> 2 ^ b * (2 ^ m * c) * 2 ^ a \<le> 2 ^ j * 2 ^ a"
    using pos by (simp only: mult_le_cancel_right_pos)
  also have "\<dots> \<longleftrightarrow> (2::real) ^ m \<le> 2 ^ (j + a)"
    by (simp only: eq power_add)
  also have "\<dots> \<longleftrightarrow> m \<le> j + a"
    by (rule power_increasing_iff) simp
  finally show ?thesis .
qed

lemma scale_less:
  fixes c :: real
  assumes "c * 2 ^ a * 2 ^ b = 1"
  shows "2 ^ j < 2 * (2 ^ b * (2 ^ m * c)) \<longleftrightarrow> j + a < m + 1"
proof -
  have pos: "(0::real) < 2 ^ a" by simp
  have "2 * (2 ^ b * (2 ^ m * c)) * 2 ^ a = 2 * 2 ^ m * (c * 2 ^ a * 2 ^ b)"
    by simp
  also have "\<dots> = 2 ^ (m + 1)"
    by (simp add: assms)
  finally have eq: "2 * (2 ^ b * (2 ^ m * c)) * 2 ^ a = 2 ^ (m + 1)" .
  have "2 ^ j < 2 * (2 ^ b * (2 ^ m * c)) \<longleftrightarrow>
      2 ^ j * 2 ^ a < 2 * (2 ^ b * (2 ^ m * c)) * 2 ^ a"
    using pos by (simp only: mult_less_cancel_right_pos)
  also have "\<dots> \<longleftrightarrow> (2::real) ^ (j + a) < 2 ^ (m + 1)"
    by (simp only: eq power_add)
  also have "\<dots> \<longleftrightarrow> j + a < m + 1"
    by (rule power_strict_increasing_iff) simp
  finally show ?thesis .
qed

lemma quantum_index:
  assumes "0 < x"
  shows "\<exists>m \<le> 2045. quantum x = 2 ^ m * min_quantum \<and>
           (m = 0 \<or> 2 ^ 52 * quantum x \<le> x) \<and> (m = 2045 \<or> x < 2 * (2 ^ 52 * quantum x))"
proof (cases "1 \<le> x")
  case True
  define e where "e = expo_up x 0"
  from expo_up_spec [of 0 x] True have e: "e \<le> 1023" "2 ^ e \<le> x" "x < 2 ^ (e + 1) \<or> e = 1023"
    by (simp_all add: e_def)
  have q: "quantum x = 2 ^ e / 2 ^ 52"
    using True by (simp add: quantum_def e_def)
  have q': "quantum x = 2 ^ (e + 1022) * min_quantum"
    unfolding q by (rule scale_up [OF min_quantum_eq])
  have lo: "2 ^ 52 * quantum x \<le> x"
    using e(2) by (simp add: q)
  have hi: "e + 1022 = 2045 \<or> x < 2 * (2 ^ 52 * quantum x)"
  proof -
    have "2 * ((2::real) ^ 52 * (2 ^ e / 2 ^ 52)) = 2 ^ (e + 1)"
      by simp
    with e(3) show ?thesis
      unfolding q by auto
  qed
  from e(1) have "e + 1022 \<le> 2045" by simp
  with q' lo hi show ?thesis by blast
next
  case False
  define n where "n = expo_down x 1"
  from expo_down_spec [of 1 x] False
  have n: "1 \<le> n" "n \<le> 1022" "x * 2 ^ (n - 1) < 1" "1 \<le> x * 2 ^ n \<or> n = 1022"
    by (simp_all add: n_def)
  have q: "quantum x = 1 / (2 ^ n * 2 ^ 52)"
    using False by (simp add: quantum_def n_def)
  have q': "quantum x = 2 ^ (1022 - n) * min_quantum"
    unfolding q by (rule scale_down [OF min_quantum_eq n(2)])
  have lo: "1022 - n = 0 \<or> 2 ^ 52 * quantum x \<le> x"
  proof -
    have "2 ^ 52 * quantum x = 1 / 2 ^ n"
      unfolding q by simp
    moreover have "1 \<le> x * 2 ^ n \<Longrightarrow> 1 / 2 ^ n \<le> x"
      by (simp add: field_simps)
    ultimately show ?thesis
      using n(2,4) by auto
  qed
  have hi: "x < 2 * (2 ^ 52 * quantum x)"
  proof -
    have "(2::real) ^ n = 2 * 2 ^ (n - 1)"
      using n(1) by (cases n) simp_all
    then have "2 * (2 ^ 52 * quantum x) = 1 / 2 ^ (n - 1)"
      unfolding q by simp
    moreover have "x < 1 / 2 ^ (n - 1)"
      using n(3) by (simp add: field_simps)
    ultimately show ?thesis by simp
  qed
  have "1022 - n \<le> 2045" by simp
  with q' lo hi show ?thesis by blast
qed

lemma quantum_pos: "0 < x \<Longrightarrow> 0 < quantum x"
  using quantum_index [of x] min_quantum_pos by auto

lemma quantum_double:
  assumes "0 < x" "0 < y" "quantum x < quantum y"
  shows "2 * quantum x \<le> quantum y \<and> x < 2 * (2 ^ 52 * quantum x) \<and> 2 ^ 52 * quantum y \<le> y"
proof -
  from quantum_index [OF assms(1)] obtain m where m: "m \<le> 2045" "quantum x = 2 ^ m * min_quantum"
    "m = 2045 \<or> x < 2 * (2 ^ 52 * quantum x)" by blast
  from quantum_index [OF assms(2)] obtain k where k: "k \<le> 2045" "quantum y = 2 ^ k * min_quantum"
    "k = 0 \<or> 2 ^ 52 * quantum y \<le> y" by blast
  from assms(3) m(2) k(2) min_quantum_pos have "(2::real) ^ m < 2 ^ k"
    by simp
  then have mk: "m < k" by simp
  then have "(2::real) ^ (m + 1) \<le> 2 ^ k"
    by (intro power_increasing) simp_all
  then have "2 ^ (m + 1) * min_quantum \<le> 2 ^ k * min_quantum"
    using min_quantum_pos by (simp only: mult_le_cancel_right_pos)
  then have two: "2 * quantum x \<le> quantum y"
    unfolding m(2) k(2) by simp
  from mk k(1) m(3) have "x < 2 * (2 ^ 52 * quantum x)" by auto
  moreover from mk k(3) have "2 ^ 52 * quantum y \<le> y" by auto
  ultimately show ?thesis using two by blast
qed

lemma quantum_mono:
  assumes "0 < x" "x \<le> y"
  shows "quantum x \<le> quantum y"
proof (rule ccontr)
  assume "\<not> quantum x \<le> quantum y"
  then have less: "quantum y < quantum x" by simp
  from assms have y: "0 < y" by simp
  from quantum_double [OF y assms(1) less]
  have two: "2 * quantum y \<le> quantum x" and yhi: "y < 2 * (2 ^ 52 * quantum y)"
    and xlo: "2 ^ 52 * quantum x \<le> x" by simp_all
  have "y < 2 ^ 52 * (2 * quantum y)"
    using yhi by simp
  also have "\<dots> \<le> 2 ^ 52 * quantum x"
    using two by (intro mult_left_mono) simp_all
  also have "\<dots> \<le> x"
    by (rule xlo)
  finally show False
    using assms(2) by simp
qed

subsection \<open>Rounding to an integer, ties to even\<close>

lemma round_even_bounds: "\<lfloor>y\<rfloor> \<le> round_even y \<and> round_even y \<le> \<lfloor>y\<rfloor> + 1"
  by (simp add: round_even_def Let_def)

lemma round_even_of_int [simp]: "round_even (of_int k) = k"
  by (simp add: round_even_def)

lemma round_even_mono:
  assumes "a \<le> b"
  shows "round_even a \<le> round_even b"
proof (cases "\<lfloor>a\<rfloor> = \<lfloor>b\<rfloor>")
  case True
  from assms have "a - of_int \<lfloor>a\<rfloor> \<le> b - of_int \<lfloor>b\<rfloor>"
    using True by simp
  then show ?thesis
    using True by (auto simp add: round_even_def Let_def)
next
  case False
  with assms have "\<lfloor>a\<rfloor> < \<lfloor>b\<rfloor>"
    using floor_mono [OF assms] by simp
  then have "\<lfloor>a\<rfloor> + 1 \<le> \<lfloor>b\<rfloor>" by simp
  with round_even_bounds [of a] round_even_bounds [of b] show ?thesis
    by linarith
qed

lemma round_even_ge: "of_int k \<le> y \<Longrightarrow> k \<le> round_even y"
  using round_even_mono [of "of_int k" y] by simp

lemma round_even_le: "y \<le> of_int k \<Longrightarrow> round_even y \<le> k"
  using round_even_mono [of y "of_int k"] by simp

lemma round_even_near: "\<bar>of_int (round_even y) - y\<bar> \<le> 1 / 2"
proof -
  have "of_int \<lfloor>y\<rfloor> \<le> y" "y < of_int \<lfloor>y\<rfloor> + 1"
    by linarith+
  then show ?thesis
    by (auto simp add: round_even_def Let_def)
qed

subsection \<open>Rounding to a double\<close>

lemma round_double_0 [simp]: "round_double 0 = 0"
  by (simp add: round_double_def)

lemma round_double_minus: "round_double (- x) = - round_double x"
  by (simp add: round_double_def sgn_minus)

lemma round_double_pos_eq:
  "0 < x \<Longrightarrow> round_double x = of_int (round_even (x / quantum x)) * quantum x"
  by (simp add: round_double_def)

lemma round_double_nonneg: "0 \<le> x \<Longrightarrow> 0 \<le> round_double x"
proof (cases "x = 0")
  case False
  assume "0 \<le> x"
  with False have x: "0 < x" by simp
  then have "0 \<le> x / quantum x"
    using quantum_pos [OF x] by simp
  then have "0 \<le> round_even (x / quantum x)"
    using round_even_ge [of 0 "x / quantum x"] by simp
  then show ?thesis
    using quantum_pos [OF x] x by (simp add: round_double_pos_eq)
qed simp

lemma round_double_mono_pos:
  assumes x: "0 < x" and xy: "x \<le> y"
  shows "round_double x \<le> round_double y"
proof -
  from x xy have y: "0 < y" by simp
  note qx = quantum_pos [OF x] and qy = quantum_pos [OF y]
  from quantum_mono [OF x xy] have "quantum x = quantum y \<or> quantum x < quantum y"
    by auto
  then show ?thesis
  proof
    assume eq: "quantum x = quantum y"
    have "x / quantum y \<le> y / quantum y"
      using xy qy by (simp add: divide_right_mono)
    then have "round_even (x / quantum y) \<le> round_even (y / quantum y)"
      by (rule round_even_mono)
    then have "(of_int (round_even (x / quantum y)) :: real) \<le> of_int (round_even (y / quantum y))"
      by simp
    then show ?thesis
      using qy by (simp add: round_double_pos_eq x y eq mult_right_mono)
  next
    assume less: "quantum x < quantum y"
    from quantum_double [OF x y less]
    have two: "2 * quantum x \<le> quantum y" and xhi: "x < 2 * (2 ^ 52 * quantum x)"
      and ylo: "2 ^ 52 * quantum y \<le> y" by simp_all
    have "x / quantum x \<le> of_int (2 ^ 53)"
      using xhi qx by (simp add: field_simps)
    then have "round_even (x / quantum x) \<le> 2 ^ 53"
      by (rule round_even_le)
    then have "(of_int (round_even (x / quantum x)) :: real) \<le> of_int (2 ^ 53)"
      by (simp only: of_int_le_iff)
    then have "round_double x \<le> 2 ^ 53 * quantum x"
      using qx by (simp add: round_double_pos_eq x mult_right_mono)
    also have "\<dots> = 2 ^ 52 * (2 * quantum x)" by simp
    also have "\<dots> \<le> 2 ^ 52 * quantum y"
      using two by (intro mult_left_mono) simp_all
    also have "\<dots> \<le> round_double y"
    proof -
      have "of_int (2 ^ 52) \<le> y / quantum y"
        using ylo qy by (simp add: field_simps)
      then have "2 ^ 52 \<le> round_even (y / quantum y)"
        by (rule round_even_ge)
      then have "(of_int (2 ^ 52) :: real) \<le> of_int (round_even (y / quantum y))"
        by (simp only: of_int_le_iff)
      then show ?thesis
        using qy by (simp add: round_double_pos_eq y mult_right_mono)
    qed
    finally show ?thesis .
  qed
qed

lemma round_double_mono:
  assumes "x \<le> y"
  shows "round_double x \<le> round_double y"
proof -
  consider "0 < x" | "x \<le> 0" "0 \<le> y" | "y < 0" by linarith
  then show ?thesis
  proof cases
    case 1
    then show ?thesis using assms by (rule round_double_mono_pos)
  next
    case 2
    have "round_double x \<le> 0"
      using round_double_nonneg [of "- x"] 2(1) by (simp add: round_double_minus)
    with round_double_nonneg [OF 2(2)] show ?thesis by simp
  next
    case 3
    then have "0 < - y" "- y \<le> - x" using assms by simp_all
    then have "round_double (- y) \<le> round_double (- x)"
      by (rule round_double_mono_pos)
    then show ?thesis by (simp add: round_double_minus)
  qed
qed

lemma round_double_pow2:
  assumes "j \<le> 1023"
  shows "round_double (2 ^ j) = 2 ^ j"
proof -
  let ?x = "(2::real) ^ j"
  have x: "0 < ?x" by simp
  from quantum_index [OF x] obtain m where m: "m \<le> 2045" "quantum ?x = 2 ^ m * min_quantum"
    "m = 0 \<or> 2 ^ 52 * quantum ?x \<le> ?x" "m = 2045 \<or> ?x < 2 * (2 ^ 52 * quantum ?x)" by blast
  have lo: "m \<le> j + 1022"
  proof (cases "m = 0")
    case False
    with m(3) have "2 ^ 52 * (2 ^ m * min_quantum) \<le> ?x"
      by (simp only: m(2)) simp
    then show ?thesis
      by (simp only: scale_le [OF min_quantum_eq])
  qed simp
  have hi: "j + 1022 \<le> m"
  proof (cases "m = 2045")
    case True
    with assms show ?thesis by simp
  next
    case False
    with m(4) have "?x < 2 * (2 ^ 52 * (2 ^ m * min_quantum))"
      by (simp only: m(2)) simp
    then have "j + 1022 < m + 1"
      by (simp only: scale_less [OF min_quantum_eq])
    then show ?thesis by simp
  qed
  from lo hi have "m = j + 1022" by simp
  then have "quantum ?x = 2 ^ (j + 1022) * min_quantum"
    by (simp only: m(2))
  also have "\<dots> = 2 ^ j / 2 ^ 52"
    by (rule scale_up [OF min_quantum_eq, symmetric])
  finally have q: "quantum ?x = 2 ^ j / 2 ^ 52" .
  have "?x / quantum ?x = of_int (2 ^ 52)"
    unfolding q by simp
  then have "round_even (?x / quantum ?x) = 2 ^ 52"
    by (simp only: round_even_of_int)
  then show ?thesis
    by (simp add: round_double_pos_eq q)
qed

lemma round_double_le_pow2:
  assumes "\<bar>x\<bar> \<le> 2 ^ j" "j \<le> 1023"
  shows "\<bar>round_double x\<bar> \<le> 2 ^ j"
proof -
  from assms(1) have "x \<le> 2 ^ j" "- (2 ^ j) \<le> x" by (auto simp: abs_le_iff)
  then have "round_double x \<le> round_double (2 ^ j)" "round_double (- (2 ^ j)) \<le> round_double x"
    by (auto intro: round_double_mono)
  then show ?thesis
    by (simp add: round_double_minus round_double_pow2 [OF assms(2)] abs_le_iff)
qed

text \<open>The equations by which a closed term is evaluated.\<close>

lemmas eval_simps =
  js_mul_def js_add_def js_sub_def js_div_def js_lt_def js_le_def js_gt_def to_double_def
  overflow_threshold_def round_double_def quantum_def expo_down.simps expo_up.simps
  round_even_def Let_def toFixed_def toFixed_string_def round_half_up_def inf_of_def zero_of_def

subsection \<open>The double of an exact result\<close>

lemma threshold_gt: "2 ^ 1023 < overflow_threshold"
  by (simp add: overflow_threshold_def)

lemma to_double_not_NaN [simp]: "to_double s x \<noteq> NaN"
  by (simp add: to_double_def)

lemma is_finite_to_double: "is_finite (to_double s x) \<longleftrightarrow> \<bar>x\<bar> < overflow_threshold"
  by (auto simp add: to_double_def)

lemma val_to_double: "\<bar>x\<bar> < overflow_threshold \<Longrightarrow> val (to_double s x) = round_double x"
  by (simp add: to_double_def)

lemma to_double_nonneg:
  "0 \<le> x \<Longrightarrow> x < overflow_threshold \<Longrightarrow> to_double False x = Fin (round_double x)"
  by (simp add: to_double_def)

lemma round_double_ge_pow2: "2 ^ 1023 \<le> x \<Longrightarrow> 2 ^ 1023 \<le> round_double x"
  using round_double_mono [of "2 ^ 1023" x] round_double_pow2 [of 1023] by simp

lemma round_double_le_neg_pow2: "x \<le> - (2 ^ 1023) \<Longrightarrow> round_double x \<le> - (2 ^ 1023)"
  using round_double_ge_pow2 [of "- x"] by (simp add: round_double_minus)

lemma js_lt_to_double_Fin:
  assumes "- (2 ^ 1023) < m" "m \<le> 2 ^ 1023"
  shows "js_lt (to_double s x) (Fin m) \<longleftrightarrow> round_double x < m"
proof -
  consider "overflow_threshold \<le> x" | "x \<le> - overflow_threshold" | "\<bar>x\<bar> < overflow_threshold"
    by linarith
  then show ?thesis
  proof cases
    case 1
    then have "2 ^ 1023 \<le> x" using threshold_gt by linarith
    then have "m \<le> round_double x"
      using round_double_ge_pow2 [of x] assms(2) by linarith
    moreover have "to_double s x = PosInf"
      using 1 threshold_gt by (simp add: to_double_def)
    ultimately show ?thesis
      by (simp add: js_lt_def)
  next
    case 2
    then have "x \<le> - (2 ^ 1023)" using threshold_gt by linarith
    then have "round_double x < m"
      using round_double_le_neg_pow2 [of x] assms(1) by linarith
    moreover have "to_double s x = NegInf"
      using 2 threshold_gt by (simp add: to_double_def)
    ultimately show ?thesis
      by (simp add: js_lt_def)
  next
    case 3
    then have "is_finite (to_double s x)" "val (to_double s x) = round_double x"
      by (simp_all add: is_finite_to_double val_to_double)
    then show ?thesis
      by (simp add: js_lt_def)
  qed
qed

lemma round_double_2: "round_double 2 = 2"
  using round_double_pow2 [of 1] by simp

section \<open>Validation\<close>

lemma push_if_append: "push_if b x xs = xs @ (if b then [x] else [])"
  by (simp add: push_if_def)

lemma errors_validateGridConfig:
  "errors (validateGridConfig c) =
     (if js_lt (investment c) (Fin 5) then [MinInvestmentError] else []) @
     (if js_lt (gridCount c) (Fin 3) then [MinGridCountError] else []) @
     (if js_gt (gridCount c) (Fin 50) then [MaxGridCountError] else []) @
     (if js_le (upperPrice c) (lowerPrice c) then [PriceOrderError] else []) @
     (if js_le (lowerPrice c) (Fin 0) then [LowerPriceError] else []) @
     (if js_lt (profitPerGrid c) (Fin (round_double (1 / 10))) then [MinProfitError] else []) @
     (if js_gt (profitPerGrid c) (Fin 10) then [MaxProfitError] else []) @
     (if js_lt (js_div (investment c) (gridCount c)) (Fin 2)
      then [OrderSizeError (toFixed_string (js_div (investment c) (gridCount c)) 2)] else [])"
  unfolding validateGridConfig_def Let_def TRADING_LIMITS_def
  by (simp add: push_if_append)

lemma isValid_validateGridConfig:
  "isValid (validateGridConfig c) \<longleftrightarrow> errors (validateGridConfig c) = []"
  unfolding validateGridConfig_def Let_def
  by simp

lemma isValid_comparisons:
  "isValid (validateGridConfig c) \<longleftrightarrow>
     \<not> js_lt (investment c) (Fin 5) \<and> \<not> js_lt (gridCount c) (Fin 3) \<and>
     \<not> js_gt (gridCount c) (Fin 50) \<and> \<not> js_le (upperPrice c) (lowerPrice c) \<and>
     \<not> js_le (lowerPrice c) (Fin 0) \<and>
     \<not> js_lt (profitPerGrid c) (Fin (round_double (1 / 10))) \<and>
     \<not> js_gt (profitPerGrid c) (Fin 10) \<and>
     \<not> js_lt (js_div (investment c) (gridCount c)) (Fin 2)"
  unfolding isValid_validateGridConfig errors_validateGridConfig by simp

lemma js_div_NaN_cases:
  assumes "a \<noteq> NaN" "b \<noteq> NaN" "js_div a b = NaN"
  shows "(is_finite b \<and> val b = 0) \<or> \<not> is_finite b"
  using assms by (auto simp add: js_div_def inf_of_def zero_of_def split: if_splits)

lemma isValid_no_NaN:
  assumes "investment c \<noteq> NaN" "gridCount c \<noteq> NaN" "upperPrice c \<noteq> NaN"
    "lowerPrice c \<noteq> NaN" "profitPerGrid c \<noteq> NaN"
  shows "isValid (validateGridConfig c) \<longleftrightarrow>
     js_le (Fin 5) (investment c) \<and> js_le (Fin 3) (gridCount c) \<and>
     js_le (gridCount c) (Fin 50) \<and> js_gt (upperPrice c) (lowerPrice c) \<and>
     js_gt (lowerPrice c) (Fin 0) \<and>
     js_le (Fin (round_double (1 / 10))) (profitPerGrid c) \<and>
     js_le (profitPerGrid c) (Fin 10) \<and>
     js_le (Fin 2) (js_div (investment c) (gridCount c))"
proof (cases "js_div (investment c) (gridCount c) = NaN")
  case False
  with assms show ?thesis
    unfolding isValid_comparisons by (simp add: js_le_def js_gt_def)
next
  case True
  from js_div_NaN_cases [OF assms(1,2) True]
  have "js_lt (gridCount c) (Fin 3) \<or> js_gt (gridCount c) (Fin 50)"
    using assms(2) by (cases "gridCount c") (auto simp add: js_lt_def js_gt_def)
  moreover have "\<not> js_le (Fin 2) (js_div (investment c) (gridCount c))"
    using True by (simp add: js_le_def)
  ultimately show ?thesis
    unfolding isValid_comparisons by blast
qed

lemma isValid_finite:
  assumes "investment c = Fin amt" "gridCount c = Fin g" "upperPrice c = Fin u"
    "lowerPrice c = Fin l" "profitPerGrid c = Fin p"
  shows "isValid (validateGridConfig c) \<longleftrightarrow>
     5 \<le> amt \<and> 3 \<le> g \<and> g \<le> 50 \<and> l < u \<and> 0 < l \<and> round_double (1 / 10) \<le> p \<and> p \<le> 10 \<and>
     2 \<le> round_double (amt / g)"
proof (cases "3 \<le> g")
  case True
  then have "js_div (Fin amt) (Fin g) = to_double ((amt < 0) \<noteq> (g < 0)) (amt / g)"
    by (simp add: js_div_def)
  then have "js_lt (js_div (Fin amt) (Fin g)) (Fin 2) \<longleftrightarrow> round_double (amt / g) < 2"
    by (simp add: js_lt_to_double_Fin)
  then show ?thesis
    unfolding isValid_comparisons assms
    by (auto simp add: js_lt_def js_le_def js_gt_def)
next
  case False
  then show ?thesis
    unfolding isValid_comparisons assms
    by (auto simp add: js_lt_def js_le_def js_gt_def)
qed

text \<open>
  Claim C1 does not hold of the code for every candidate configuration: every comparison
  with \<^verbatim>\<open>NaN\<close> is false, so that for the configuration whose numbers are all \<^verbatim>\<open>NaN\<close> no
  check pushes an error and the result is valid, although no limit holds (the investment is
  not at least 5, the grid count is not at least 3, the upper price is not above the lower
  price, which is not above 0).
\<close>

theorem validateGridConfig_nan:
  "isValid (validateGridConfig nan_config) \<and> errors (validateGridConfig nan_config) = [] \<and>
   \<not> js_le (Fin 5) (investment nan_config) \<and> \<not> js_le (Fin 3) (gridCount nan_config) \<and>
   \<not> js_gt (upperPrice nan_config) (lowerPrice nan_config) \<and>
   \<not> js_gt (lowerPrice nan_config) (Fin 0)"
  by (simp add: validateGridConfig_def nan_config_def push_if_def TRADING_LIMITS_def Let_def
      js_lt_def js_le_def js_gt_def js_div_def js_sub_def js_add_def js_mul_def)

text \<open>
  Claim C1, amended. For every candidate configuration \<^verbatim>\<open>isValid\<close> holds exactly when
  the list of errors is empty, and the list of errors holds one error for each of the eight
  comparisons of the source that is true, in the order of the source, none skipped because
  of another; the order-size error carries the order size as \<^verbatim>\<open>toFixed(2)\<close> prints it.
  For a configuration none of whose numbers is \<^verbatim>\<open>NaN\<close> the result is valid exactly when
  all the limits hold: investment at least 5, grid count from 3 to 50, upper price above
  lower price, lower price above 0, profit from the double of 0.1 to 10, and the order size
  (the double of investment / grid count) at least 2. For finite numbers that is the
  arithmetic condition of the last part.
\<close>

theorem validateGridConfig_checks:
  "(isValid (validateGridConfig c) \<longleftrightarrow> errors (validateGridConfig c) = []) \<and>
   errors (validateGridConfig c) =
     (if js_lt (investment c) (Fin 5) then [MinInvestmentError] else []) @
     (if js_lt (gridCount c) (Fin 3) then [MinGridCountError] else []) @
     (if js_gt (gridCount c) (Fin 50) then [MaxGridCountError] else []) @
     (if js_le (upperPrice c) (lowerPrice c) then [PriceOrderError] else []) @
     (if js_le (lowerPrice c) (Fin 0) then [LowerPriceError] else []) @
     (if js_lt (profitPerGrid c) (Fin (round_double (1 / 10))) then [MinProfitError] else []) @
     (if js_gt (profitPerGrid c) (Fin 10) then [MaxProfitError] else []) @
     (if js_lt (js_div (investment c) (gridCount c)) (Fin 2)
      then [OrderSizeError (toFixed_string (js_div (investment c) (gridCount c)) 2)] else []) \<and>
   (investment c \<noteq> NaN \<and> gridCount c \<noteq> NaN \<and> upperPrice c \<noteq> NaN \<and>
    lowerPrice c \<noteq> NaN \<and> profitPerGrid c \<noteq> NaN \<longrightarrow>
      (isValid (validateGridConfig c) \<longleftrightarrow>
         js_le (Fin 5) (investment c) \<and> js_le (Fin 3) (gridCount c) \<and>
         js_le (gridCount c) (Fin 50) \<and> js_gt (upperPrice c) (lowerPrice c) \<and>
         js_gt (lowerPrice c) (Fin 0) \<and>
         js_le (Fin (round_double (1 / 10))) (profitPerGrid c) \<and>
         js_le (profitPerGrid c) (Fin 10) \<and>
         js_le (Fin 2) (js_div (investment c) (gridCount c)))) \<and>
   (\<forall>amt g u l p.
      investment c = Fin amt \<and> gridCount c = Fin g \<and> upperPrice c = Fin u \<and>
      lowerPrice c = Fin l \<and> profitPerGrid c = Fin p \<longrightarrow>
      (isValid (validateGridConfig c) \<longleftrightarrow>
         5 \<le> amt \<and> 3 \<le> g \<and> g \<le> 50 \<and> l < u \<and> 0 < l \<and>
         round_double (1 / 10) \<le> p \<and> p \<le> 10 \<and> 2 \<le> round_double (amt / g)))"
  using isValid_validateGridConfig [of c] errors_validateGridConfig [of c]
    isValid_no_NaN [of c] isValid_finite [of c]
  by blast

text \<open>
  The instance of amended C1 at an investment of 5 over 3 grid lines: the order size is the
  double of 5 / 3, below 2, and the one error is the order-size error, which prints 1.67.
\<close>

theorem validateGridConfig_checks_example:
  "\<not> isValid (validateGridConfig small_config) \<and>
   errors (validateGridConfig small_config) = [OrderSizeError (Decimal False 167 2)] \<and>
   round_double (5 / 3) < 2"
proof -
  note inst = validateGridConfig_checks [of small_config]
  have fields: "investment small_config = Fin 5 \<and> gridCount small_config = Fin 3 \<and>
      upperPrice small_config = Fin 42000 \<and> lowerPrice small_config = Fin 40000 \<and>
      profitPerGrid small_config = Fin 1"
    by (simp add: small_config_def)
  have small: "round_double (5 / 3) < 2"
    by (simp add: eval_simps)
  from inst fields have "isValid (validateGridConfig small_config) \<longleftrightarrow>
      (5::real) \<le> 5 \<and> (3::real) \<le> 3 \<and> (3::real) \<le> 50 \<and> (40000::real) < 42000 \<and> (0::real) < 40000 \<and>
         round_double (1 / 10) \<le> 1 \<and> (1::real) \<le> 10 \<and> 2 \<le> round_double (5 / 3)"
    by blast
  with small have invalid: "\<not> isValid (validateGridConfig small_config)"
    by simp
  from inst have "errors (validateGridConfig small_config) =
     (if js_lt (investment small_config) (Fin 5) then [MinInvestmentError] else []) @
     (if js_lt (gridCount small_config) (Fin 3) then [MinGridCountError] else []) @
     (if js_gt (gridCount small_config) (Fin 50) then [MaxGridCountError] else []) @
     (if js_le (upperPrice small_config) (lowerPrice small_config) then [PriceOrderError] else []) @
     (if js_le (lowerPrice small_config) (Fin 0) then [LowerPriceError] else []) @
     (if js_lt (profitPerGrid small_config) (Fin (round_double (1 / 10))) then [MinProfitError] else []) @
     (if js_gt (profitPerGrid small_config) (Fin 10) then [MaxProfitError] else []) @
     (if js_lt (js_div (investment small_config) (gridCount small_config)) (Fin 2)
      then [OrderSizeError (toFixed_string (js_div (investment small_config) (gridCount small_config)) 2)] else [])"
    by blast
  then have "errors (validateGridConfig small_config) = [OrderSizeError (Decimal False 167 2)]"
    by (simp add: small_config_def eval_simps)
  with invalid small show ?thesis by simp
qed

section \<open>The level store\<close>

lemma find_from_Some:
  "find_from P xs k = Some i \<Longrightarrow>
     k \<le> i \<and> i - k < length xs \<and> P (xs ! (i - k)) \<and> (\<forall>j < i - k. \<not> P (xs ! j))"
proof (induction xs arbitrary: k)
  case Nil
  then show ?case by simp
next
  case (Cons x xs)
  show ?case
  proof (cases "P x")
    case True
    with Cons.prems show ?thesis by simp
  next
    case False
    with Cons.prems have rec: "find_from P xs (Suc k) = Some i" by simp
    from Cons.IH [OF rec] have ih: "Suc k \<le> i" "i - Suc k < length xs"
      "P (xs ! (i - Suc k))" "\<forall>j < i - Suc k. \<not> P (xs ! j)"
      by simp_all
    from ih(1) have eq: "i - k = Suc (i - Suc k)" by simp
    have "\<forall>j < i - k. \<not> P ((x # xs) ! j)"
    proof (intro allI impI)
      fix j assume "j < i - k"
      then show "\<not> P ((x # xs) ! j)"
        using False ih(4) eq by (cases j) simp_all
    qed
    with ih eq show ?thesis by simp
  qed
qed

lemma find_from_None: "find_from P xs k = None \<longleftrightarrow> (\<forall>x \<in> set xs. \<not> P x)"
  by (induction xs arbitrary: k) simp_all


lemma find_level_Some:
  "find_level p ls = Some i \<Longrightarrow>
     i < length ls \<and> price_matches p (ls ! i) \<and> (\<forall>j < i. \<not> price_matches p (ls ! j))"
  unfolding find_level_def using find_from_Some [of "price_matches p" ls 0 i] by simp

lemma find_level_None:
  "find_level p ls = None \<longleftrightarrow> (\<forall>l \<in> set ls. \<not> price_matches p l)"
  unfolding find_level_def by (rule find_from_None)

lemma gridLevels_updateGridLevel:
  "gridLevels (updateGridLevel p orderId type s) =
     (case find_level p (gridLevels s) of
        None \<Rightarrow> gridLevels s
      | Some i \<Rightarrow> (gridLevels s)[i := (if type = Buy
           then (gridLevels s ! i)\<lparr>buyOrderId := Some orderId\<rparr>
           else (gridLevels s ! i)\<lparr>sellOrderId := Some orderId\<rparr>)])"
  by (simp add: updateGridLevel_def split: option.splits)

lemma gridLevels_markLevelFilled:
  "gridLevels (markLevelFilled p s) =
     (case find_level p (gridLevels s) of
        None \<Rightarrow> gridLevels s
      | Some i \<Rightarrow> (gridLevels s)[i := (gridLevels s ! i)\<lparr>isFilled := True\<rparr>])"
  by (simp add: markLevelFilled_def split: option.splits)

lemma nth_update_cases:
  "(xs[i := x]) ! j = (if i = j \<and> i < length xs then x else xs ! j)"
  by (cases "i < length xs") (simp_all add: nth_list_update list_update_beyond)

lemma map_update_same: "f y = f (xs ! i) \<Longrightarrow> map f (xs[i := y]) = map f xs"
  by (rule nth_equalityI) (auto simp: nth_update_cases)

text \<open>
  Claim C8. \<^verbatim>\<open>updateGridLevel\<close> and \<^verbatim>\<open>markLevelFilled\<close> keep the number of levels and
  the price of every level; they change neither the configuration nor the active flag.
  \<^verbatim>\<open>updateGridLevel\<close> keeps every fill state, and \<^verbatim>\<open>markLevelFilled\<close> keeps every
  order reference: only \<open>buyOrderId\<close>, \<open>sellOrderId\<close> and \<open>isFilled\<close> of levels change.
\<close>

theorem store_frame:
  "length (gridLevels (updateGridLevel p orderId type s)) = length (gridLevels s) \<and>
   map price (gridLevels (updateGridLevel p orderId type s)) = map price (gridLevels s) \<and>
   map isFilled (gridLevels (updateGridLevel p orderId type s)) = map isFilled (gridLevels s) \<and>
   config (updateGridLevel p orderId type s) = config s \<and>
   isActive (updateGridLevel p orderId type s) = isActive s \<and>
   length (gridLevels (markLevelFilled p s)) = length (gridLevels s) \<and>
   map price (gridLevels (markLevelFilled p s)) = map price (gridLevels s) \<and>
   map buyOrderId (gridLevels (markLevelFilled p s)) = map buyOrderId (gridLevels s) \<and>
   map sellOrderId (gridLevels (markLevelFilled p s)) = map sellOrderId (gridLevels s) \<and>
   config (markLevelFilled p s) = config s \<and>
   isActive (markLevelFilled p s) = isActive s"
proof -
  have u1: "length (gridLevels (updateGridLevel p orderId type s)) = length (gridLevels s)"
    by (simp add: gridLevels_updateGridLevel split: option.splits)
  have u2: "map price (gridLevels (updateGridLevel p orderId type s)) = map price (gridLevels s)"
    by (simp add: gridLevels_updateGridLevel map_update_same split: option.splits)
  have u3: "map isFilled (gridLevels (updateGridLevel p orderId type s)) = map isFilled (gridLevels s)"
    by (simp add: gridLevels_updateGridLevel map_update_same split: option.splits)
  have u4: "config (updateGridLevel p orderId type s) = config s"
    "isActive (updateGridLevel p orderId type s) = isActive s"
    by (simp_all add: updateGridLevel_def split: option.splits)
  have m1: "length (gridLevels (markLevelFilled p s)) = length (gridLevels s)"
    by (simp add: gridLevels_markLevelFilled split: option.splits)
  have m2: "map price (gridLevels (markLevelFilled p s)) = map price (gridLevels s)"
    "map buyOrderId (gridLevels (markLevelFilled p s)) = map buyOrderId (gridLevels s)"
    "map sellOrderId (gridLevels (markLevelFilled p s)) = map sellOrderId (gridLevels s)"
    by (simp_all add: gridLevels_markLevelFilled map_update_same split: option.splits)
  have m3: "config (markLevelFilled p s) = config s"
    "isActive (markLevelFilled p s) = isActive s"
    by (simp_all add: markLevelFilled_def split: option.splits)
  from u1 u2 u3 u4 m1 m2 m3 show ?thesis by simp
qed

text \<open>
  Claim C9. When the given price is within \<open>10^-6\<close> of no level's price,
  \<^verbatim>\<open>updateGridLevel\<close> and \<^verbatim>\<open>markLevelFilled\<close> return the strategy as it was; they have
  no other outcome (neither throws nor returns a value).
\<close>

theorem unmatched_noop:
  assumes "\<forall>l \<in> set (gridLevels s). \<not> price_matches p l"
  shows "updateGridLevel p orderId type s = s \<and> markLevelFilled p s = s"
proof -
  from assms have "find_level p (gridLevels s) = None"
    by (simp add: find_level_None)
  then show ?thesis
    by (simp add: updateGridLevel_def markLevelFilled_def)
qed

text \<open>The instance of C9 at the example strategy and the price 40500, between two levels.\<close>

theorem unmatched_noop_example:
  "updateGridLevel (Fin 40500) ''order-1'' Buy example_strategy = example_strategy \<and>
   markLevelFilled (Fin 40500) example_strategy = example_strategy"
  using unmatched_noop [of example_strategy "Fin 40500" "''order-1''" Buy]
  by (simp add: example_strategy_def price_matches_def eval_simps)

lemma apply_op_length: "length (gridLevels (apply_op x s)) = length (gridLevels s)"
  by (cases x) (simp_all add: gridLevels_updateGridLevel gridLevels_markLevelFilled setActive_def
      split: option.splits)

lemma apply_op_isFilled:
  assumes "i < length (gridLevels s)" "isFilled (gridLevels s ! i)"
  shows "isFilled (gridLevels (apply_op x s) ! i)"
  using assms
  by (cases x) (auto simp add: gridLevels_updateGridLevel gridLevels_markLevelFilled setActive_def
      nth_update_cases split: option.splits)

lemma run_ops_isFilled:
  "i < length (gridLevels s) \<Longrightarrow> isFilled (gridLevels s ! i) \<Longrightarrow>
     i < length (gridLevels (run_ops xs s)) \<and> isFilled (gridLevels (run_ops xs s) ! i)"
proof (induction xs arbitrary: s)
  case Nil
  then show ?case by simp
next
  case (Cons x xs)
  have "i < length (gridLevels (apply_op x s))"
    using Cons.prems(1) by (simp add: apply_op_length)
  moreover have "isFilled (gridLevels (apply_op x s) ! i)"
    using Cons.prems by (rule apply_op_isFilled)
  ultimately show ?case
    using Cons.IH by simp
qed

text \<open>
  Claim C10. The level that \<^verbatim>\<open>markLevelFilled\<close> finds is filled afterwards and stays
  filled through every sequence of operations of the strategy; more generally a filled
  level stays filled through every sequence of operations.
\<close>

theorem isFilled_monotone:
  "(find_level p (gridLevels s) = Some i \<longrightarrow>
      isFilled (gridLevels (markLevelFilled p s) ! i) \<and>
      isFilled (gridLevels (run_ops xs (markLevelFilled p s)) ! i)) \<and>
   (i < length (gridLevels s) \<and> isFilled (gridLevels s ! i) \<longrightarrow>
      isFilled (gridLevels (run_ops xs s) ! i))"
proof (intro conjI impI)
  assume found: "find_level p (gridLevels s) = Some i"
  then have i: "i < length (gridLevels s)"
    using find_level_Some by blast
  with found show filled: "isFilled (gridLevels (markLevelFilled p s) ! i)"
    by (simp add: gridLevels_markLevelFilled)
  from i have "i < length (gridLevels (markLevelFilled p s))"
    by (simp add: gridLevels_markLevelFilled split: option.splits)
  with filled show "isFilled (gridLevels (run_ops xs (markLevelFilled p s)) ! i)"
    using run_ops_isFilled by blast
next
  assume "i < length (gridLevels s) \<and> isFilled (gridLevels s ! i)"
  then show "isFilled (gridLevels (run_ops xs s) ! i)"
    using run_ops_isFilled by blast
qed

text \<open>
  The instances of C10 at the example strategy. The level at 41000 is filled; then an order
  is recorded, the level is filled again, another order is recorded and the strategy is
  deactivated. From the strategy with that level filled, filling another level, activating
  the strategy and reading it leave the level filled.
\<close>

theorem isFilled_monotone_example:
  "find_level (Fin 41000) (gridLevels example_strategy) = Some 1 \<and>
   isFilled (gridLevels (run_ops
      [UpdateGridLevel (Fin 41000) ''order-2'' Sell, MarkLevelFilled (Fin 41000),
       UpdateGridLevel (Fin 41000) ''order-3'' Buy, SetActive False, GetGridLevels]
      (markLevelFilled (Fin 41000) example_strategy)) ! 1) \<and>
   1 < length (gridLevels (markLevelFilled (Fin 41000) example_strategy)) \<and>
   isFilled (gridLevels (markLevelFilled (Fin 41000) example_strategy) ! 1) \<and>
   isFilled (gridLevels (run_ops
      [MarkLevelFilled (Fin 40000), SetActive True, GetConfig, IsStrategyActive]
      (markLevelFilled (Fin 41000) example_strategy)) ! 1)"
proof -
  let ?s = "markLevelFilled (Fin 41000) example_strategy"
  have found: "find_level (Fin 41000) (gridLevels example_strategy) = Some 1"
    by (simp add: example_strategy_def find_level_def price_matches_def eval_simps)
  have len: "1 < length (gridLevels ?s)"
    by (simp add: gridLevels_markLevelFilled found) (simp add: example_strategy_def)
  from found isFilled_monotone [of "Fin 41000" example_strategy 1]
  have filled: "isFilled (gridLevels ?s ! 1)"
    and first: "isFilled (gridLevels (run_ops
      [UpdateGridLevel (Fin 41000) ''order-2'' Sell, MarkLevelFilled (Fin 41000),
       UpdateGridLevel (Fin 41000) ''order-3'' Buy, SetActive False, GetGridLevels] ?s) ! 1)"
    by blast+
  from len filled isFilled_monotone [of "Fin 41000" ?s 1]
  have "isFilled (gridLevels (run_ops
      [MarkLevelFilled (Fin 40000), SetActive True, GetConfig, IsStrategyActive] ?s) ! 1)"
    by blast
  with found len filled first show ?thesis
    by blast
qed

section \<open>The lifecycle of a level\<close>

lemma find_from_map: "find_from (\<lambda>x. P (f x)) xs k = find_from P (map f xs) k"
  by (induction xs arbitrary: k) simp_all

lemma find_level_prices:
  "map price ls' = map price ls \<Longrightarrow> find_level p ls' = find_level p ls"
proof -
  assume eq: "map price ls' = map price ls"
  have "find_level p xs =
      find_from (\<lambda>q. js_lt (js_abs (js_sub q p)) (Fin (round_double (1 / 1000000)))) (map price xs) 0" for xs
    unfolding find_level_def price_matches_def
    by (rule find_from_map [of "\<lambda>q. js_lt (js_abs (js_sub q p)) (Fin (round_double (1 / 1000000)))" price])
  with eq show ?thesis by simp
qed

lemma find_level_updateGridLevel:
  "find_level p (gridLevels (updateGridLevel q orderId type s)) = find_level p (gridLevels s)"
  by (rule find_level_prices)
    (simp add: gridLevels_updateGridLevel map_update_same split: option.splits)

lemma find_level_markLevelFilled:
  "find_level p (gridLevels (markLevelFilled q s)) = find_level p (gridLevels s)"
  by (rule find_level_prices)
    (simp add: gridLevels_markLevelFilled map_update_same split: option.splits)

text \<open>
  Claim C4 does not hold of the code. The level at 41000 of the example strategy starts
  \<open>Empty\<close> and is \<open>BuyOpen\<close> once its first buy order is recorded. After the buy fill, the
  paired sell order, the sell fill and the new buy order, the level holds the new buy
  order, still holds the sell order, and is filled: it is not back in \<open>BuyOpen\<close>.
\<close>

theorem lifecycle_not_cyclic:
  "level_state (gridLevels example_strategy ! 1) = Empty \<and>
   level_state (gridLevels (run_ops (take 1 (lifecycle (Fin 41000) ''buy-1'' ''sell-1'' ''buy-2''))
      example_strategy) ! 1) = BuyOpen \<and>
   gridLevels (run_ops (lifecycle (Fin 41000) ''buy-1'' ''sell-1'' ''buy-2'') example_strategy) ! 1 =
     \<lparr>price = Fin 41000, buyOrderId = Some ''buy-2'', sellOrderId = Some ''sell-1'',
      isFilled = True\<rparr> \<and>
   level_state (gridLevels (run_ops (lifecycle (Fin 41000) ''buy-1'' ''sell-1'' ''buy-2'')
      example_strategy) ! 1) = SellOpen \<and>
   level_state (gridLevels (run_ops (lifecycle (Fin 41000) ''buy-1'' ''sell-1'' ''buy-2'')
      example_strategy) ! 1) \<noteq> BuyOpen"
  by (simp add: lifecycle_def example_strategy_def level_state_def updateGridLevel_def
      markLevelFilled_def find_level_def price_matches_def eval_simps)

text \<open>
  Claim C4, amended. A level has no cycle of five states: it holds the latest buy order,
  the latest sell order and the flag \<open>isFilled\<close>, which the first fill sets and nothing
  clears. For a level found under the price \<open>p\<close> that starts without orders and not filled,
  recording the first buy order sets \<open>buyOrderId\<close>; the buy fill sets \<open>isFilled\<close>;
  recording the paired sell order sets \<open>sellOrderId\<close>; the sell fill changes nothing;
  recording the new buy order replaces \<open>buyOrderId\<close>. The level ends filled, with the new
  buy order and the sell order, and no other level, nor the configuration, nor the active
  flag has changed. The two compensating orders are the ones that the caller records: the
  strategy places no order itself.
\<close>

theorem lifecycle_levels:
  assumes found: "find_level p (gridLevels s) = Some i"
    and empty: "gridLevels s ! i =
      \<lparr>price = q, buyOrderId = None, sellOrderId = None, isFilled = False\<rparr>"
  shows "gridLevels (run_ops (take 1 (lifecycle p buy1 sell1 buy2)) s) =
      (gridLevels s)[i := \<lparr>price = q, buyOrderId = Some buy1, sellOrderId = None, isFilled = False\<rparr>] \<and>
    gridLevels (run_ops (take 2 (lifecycle p buy1 sell1 buy2)) s) =
      (gridLevels s)[i := \<lparr>price = q, buyOrderId = Some buy1, sellOrderId = None, isFilled = True\<rparr>] \<and>
    gridLevels (run_ops (take 3 (lifecycle p buy1 sell1 buy2)) s) =
      (gridLevels s)[i := \<lparr>price = q, buyOrderId = Some buy1, sellOrderId = Some sell1, isFilled = True\<rparr>] \<and>
    gridLevels (run_ops (take 4 (lifecycle p buy1 sell1 buy2)) s) =
      (gridLevels s)[i := \<lparr>price = q, buyOrderId = Some buy1, sellOrderId = Some sell1, isFilled = True\<rparr>] \<and>
    gridLevels (run_ops (lifecycle p buy1 sell1 buy2) s) =
      (gridLevels s)[i := \<lparr>price = q, buyOrderId = Some buy2, sellOrderId = Some sell1, isFilled = True\<rparr>] \<and>
    config (run_ops (lifecycle p buy1 sell1 buy2) s) = config s \<and>
    isActive (run_ops (lifecycle p buy1 sell1 buy2) s) = isActive s"
proof -
  from found have i: "i < length (gridLevels s)"
    using find_level_Some by blast
  define s1 where "s1 = updateGridLevel p buy1 Buy s"
  define s2 where "s2 = markLevelFilled p s1"
  define s3 where "s3 = updateGridLevel p sell1 Sell s2"
  define s4 where "s4 = markLevelFilled p s3"
  define s5 where "s5 = updateGridLevel p buy2 Buy s4"
  have f1: "find_level p (gridLevels s1) = Some i"
    unfolding s1_def by (simp add: find_level_updateGridLevel found)
  have f2: "find_level p (gridLevels s2) = Some i"
    unfolding s2_def by (simp add: find_level_markLevelFilled f1)
  have f3: "find_level p (gridLevels s3) = Some i"
    unfolding s3_def by (simp add: find_level_updateGridLevel f2)
  have f4: "find_level p (gridLevels s4) = Some i"
    unfolding s4_def by (simp add: find_level_markLevelFilled f3)
  have l1: "gridLevels s1 = (gridLevels s)[i :=
      \<lparr>price = q, buyOrderId = Some buy1, sellOrderId = None, isFilled = False\<rparr>]"
    unfolding s1_def by (simp add: gridLevels_updateGridLevel found empty)
  have "gridLevels s2 = (gridLevels s1)[i := (gridLevels s1 ! i)\<lparr>isFilled := True\<rparr>]"
    unfolding s2_def by (simp add: gridLevels_markLevelFilled f1)
  with i have l2: "gridLevels s2 = (gridLevels s)[i :=
      \<lparr>price = q, buyOrderId = Some buy1, sellOrderId = None, isFilled = True\<rparr>]"
    by (simp add: l1)
  have "gridLevels s3 = (gridLevels s2)[i := (gridLevels s2 ! i)\<lparr>sellOrderId := Some sell1\<rparr>]"
    unfolding s3_def by (simp add: gridLevels_updateGridLevel f2)
  with i have l3: "gridLevels s3 = (gridLevels s)[i :=
      \<lparr>price = q, buyOrderId = Some buy1, sellOrderId = Some sell1, isFilled = True\<rparr>]"
    by (simp add: l2)
  have "gridLevels s4 = (gridLevels s3)[i := (gridLevels s3 ! i)\<lparr>isFilled := True\<rparr>]"
    unfolding s4_def by (simp add: gridLevels_markLevelFilled f3)
  with i have l4: "gridLevels s4 = (gridLevels s)[i :=
      \<lparr>price = q, buyOrderId = Some buy1, sellOrderId = Some sell1, isFilled = True\<rparr>]"
    by (simp add: l3)
  have "gridLevels s5 = (gridLevels s4)[i := (gridLevels s4 ! i)\<lparr>buyOrderId := Some buy2\<rparr>]"
    unfolding s5_def by (simp add: gridLevels_updateGridLevel f4)
  with i have l5: "gridLevels s5 = (gridLevels s)[i :=
      \<lparr>price = q, buyOrderId = Some buy2, sellOrderId = Some sell1, isFilled = True\<rparr>]"
    by (simp add: l4)
  have frame: "config (updateGridLevel p' oid t s') = config s'"
    "isActive (updateGridLevel p' oid t s') = isActive s'"
    "config (markLevelFilled p' s') = config s'"
    "isActive (markLevelFilled p' s') = isActive s'" for p' oid t s'
    by (simp_all add: updateGridLevel_def markLevelFilled_def split: option.splits)
  have c5: "config s5 = config s" "isActive s5 = isActive s"
    unfolding s5_def s4_def s3_def s2_def s1_def by (simp_all add: frame)
  have r1: "run_ops (take 1 (lifecycle p buy1 sell1 buy2)) s = s1"
    and r2: "run_ops (take 2 (lifecycle p buy1 sell1 buy2)) s = s2"
    and r3: "run_ops (take 3 (lifecycle p buy1 sell1 buy2)) s = s3"
    and r4: "run_ops (take 4 (lifecycle p buy1 sell1 buy2)) s = s4"
    and r5: "run_ops (lifecycle p buy1 sell1 buy2) s = s5"
    unfolding s5_def s4_def s3_def s2_def s1_def
    by (simp_all add: lifecycle_def numeral_2_eq_2 numeral_3_eq_3 eval_nat_numeral)
  show ?thesis
    unfolding r1 r2 r3 r4 r5 using l1 l2 l3 l4 l5 c5 by simp
qed

text \<open>The instance of amended C4 at the level at 41000 of the example strategy.\<close>

theorem lifecycle_levels_example:
  "find_level (Fin 41000) (gridLevels example_strategy) = Some 1 \<and>
   gridLevels (run_ops (lifecycle (Fin 41000) ''buy-1'' ''sell-1'' ''buy-2'') example_strategy) =
     [\<lparr>price = Fin 40000, buyOrderId = None, sellOrderId = None, isFilled = False\<rparr>,
      \<lparr>price = Fin 41000, buyOrderId = Some ''buy-2'', sellOrderId = Some ''sell-1'',
        isFilled = True\<rparr>,
      \<lparr>price = Fin 42000, buyOrderId = None, sellOrderId = None, isFilled = False\<rparr>]"
proof -
  have found: "find_level (Fin 41000) (gridLevels example_strategy) = Some 1"
    by (simp add: example_strategy_def find_level_def price_matches_def eval_simps)
  have empty: "gridLevels example_strategy ! 1 =
      \<lparr>price = Fin 41000, buyOrderId = None, sellOrderId = None, isFilled = False\<rparr>"
    by (simp add: example_strategy_def)
  from lifecycle_levels [OF found empty, of "''buy-1''" "''sell-1''" "''buy-2''"] found
  show ?thesis
    by (simp add: example_strategy_def)
qed

section \<open>The layout builder\<close>

lemma loop_guard: "real i < g \<longleftrightarrow> i < nat \<lceil>g\<rceil>"
proof -
  have "real i < g \<longleftrightarrow> int i < \<lceil>g\<rceil>"
    by (simp add: less_ceiling_iff)
  then show ?thesis by linarith
qed

lemma js_lt_rounds:
  "\<not> js_lt (Fin 4294967295) g \<Longrightarrow> js_lt (Fin (real i)) g \<longleftrightarrow> i < rounds g"
  by (cases g) (simp_all add: js_lt_def loop_guard)

lemma rounds_le: "\<not> js_lt (Fin 4294967295) g \<Longrightarrow> rounds g \<le> 4294967295"
proof (cases g)
  case (Fin x)
  assume "\<not> js_lt (Fin 4294967295) g"
  with Fin have "x \<le> 4294967295"
    by (simp add: js_lt_def)
  then have "\<lceil>x\<rceil> \<le> 4294967295"
    by (simp add: ceiling_le_iff)
  with Fin show ?thesis by simp
qed simp_all

lemma initializeGrid_loop_eq:
  "\<not> js_lt (Fin 4294967295) (gridCount c) \<Longrightarrow> length levels = i \<Longrightarrow>
     initializeGrid_loop c step i levels =
       Inr (levels @ map (level_at c step) [i..<rounds (gridCount c)])"
proof (induction c step i levels rule: initializeGrid_loop.induct)
  case (1 c step i levels)
  note small = \<open>\<not> js_lt (Fin 4294967295) (gridCount c)\<close>
  show ?case
  proof (cases "js_lt (Fin (real i)) (gridCount c)")
    case True
    then have lt: "i < rounds (gridCount c)"
      using small by (simp add: js_lt_rounds)
    with rounds_le [OF small] have room: "length levels < 4294967295"
      using "1.prems"(2) by simp
    have "initializeGrid_loop c step i levels =
        initializeGrid_loop c step (Suc i) (levels @ [level_at c step i])"
      using True room by (subst initializeGrid_loop.simps) (simp add: level_at_def)
    also have "\<dots> = Inr ((levels @ [level_at c step i]) @
        map (level_at c step) [Suc i..<rounds (gridCount c)])"
      using "1.IH" [OF True refl room small] "1.prems"(2) by (simp add: level_at_def)
    also have "\<dots> = Inr (levels @ map (level_at c step) [i..<rounds (gridCount c)])"
      using lt by (simp add: upt_conv_Cons)
    finally show ?thesis .
  next
    case False
    then have "rounds (gridCount c) \<le> i"
      using small by (simp add: js_lt_rounds)
    with False show ?thesis
      by (subst initializeGrid_loop.simps) simp
  qed
qed

lemma js_lt_below_limit:
  "js_lt (Fin 4294967295) g \<Longrightarrow> i \<le> 4294967295 \<Longrightarrow> js_lt (Fin (real i)) g"
  by (cases g) (simp_all add: js_lt_def)

lemma initializeGrid_loop_RangeError:
  "js_lt (Fin 4294967295) (gridCount c) \<Longrightarrow> length levels = i \<Longrightarrow> i \<le> 4294967295 \<Longrightarrow>
     initializeGrid_loop c step i levels = Inl RangeError"
proof (induction c step i levels rule: initializeGrid_loop.induct)
  case (1 c step i levels)
  note big = \<open>js_lt (Fin 4294967295) (gridCount c)\<close>
  show ?case
  proof (cases "js_lt (Fin (real i)) (gridCount c)")
    case True
    show ?thesis
    proof (cases "length levels < 4294967295")
      case room: True
      have "initializeGrid_loop c step i levels =
          initializeGrid_loop c step (Suc i) (levels @ [level_at c step i])"
        using True room by (subst initializeGrid_loop.simps) (simp add: level_at_def)
      also have "\<dots> = Inl RangeError"
        using "1.IH" [OF True refl room big] room "1.prems"(2) by (simp add: level_at_def)
      finally show ?thesis .
    next
      case False
      with True show ?thesis
        by (subst initializeGrid_loop.simps) simp
    qed
  next
    case False
    with js_lt_below_limit [OF big "1.prems"(3)] show ?thesis
      by simp
  qed
qed

lemma new_GridTradingStrategy_eq:
  "new_GridTradingStrategy c =
     (if js_lt (Fin 4294967295) (gridCount c) then Inl RangeError
      else Inr \<lparr>config = c,
                gridLevels = map (level_at c (js_div (js_sub (upperPrice c) (lowerPrice c))
                                   (js_sub (gridCount c) (Fin 1)))) [0..<rounds (gridCount c)],
                isActive = False\<rparr>)"
  by (simp add: new_GridTradingStrategy_def initializeGrid_def Let_def
      initializeGrid_loop_eq initializeGrid_loop_RangeError)


lemma new_example: "new_GridTradingStrategy example_config = Inr example_strategy"
  by (simp add: new_GridTradingStrategy_def initializeGrid_def example_config_def
      example_strategy_def initializeGrid_loop.simps eval_simps)

text \<open>
  Claim C6 does not hold of the code: with a grid count of 1, which is below 2, the
  constructor returns a strategy, with one level whose price is \<^verbatim>\<open>NaN\<close> (the price
  step is a division by zero, and 0 times an infinity is \<^verbatim>\<open>NaN\<close>).
\<close>

theorem builder_single_level:
  "js_lt (gridCount single_config) (Fin 2) \<and>
   new_GridTradingStrategy single_config =
     Inr \<lparr>config = single_config,
          gridLevels = [\<lparr>price = NaN, buyOrderId = None, sellOrderId = None, isFilled = False\<rparr>],
          isActive = False\<rparr>"
  by (simp add: new_GridTradingStrategy_def initializeGrid_def initializeGrid_loop.simps
      single_config_def eval_simps)

lemma mul_zero_inf:
  assumes "d = NaN \<or> d = PosInf \<or> d = NegInf"
  shows "js_mul (Fin 0) d = NaN"
  using assms by (auto simp add: js_mul_def)

lemma level_at_zero_div:
  assumes "gridCount c = Fin 1"
  shows "price (level_at c (js_div (js_sub (upperPrice c) (lowerPrice c))
                  (js_sub (gridCount c) (Fin 1))) 0) = NaN"
proof -
  have zero: "js_sub (Fin 1) (Fin 1) = Fin 0"
    by (simp add: js_sub_def js_add_def to_double_def overflow_threshold_def)
  have "js_div a (Fin 0) = NaN \<or> js_div a (Fin 0) = PosInf \<or> js_div a (Fin 0) = NegInf" for a
    by (simp add: js_div_def inf_of_def)
  then have "js_mul (Fin 0) (js_div a (Fin 0)) = NaN" for a
    by (rule mul_zero_inf)
  then show ?thesis
    by (simp add: level_at_def assms zero js_add_def toFixed_def toFixed_string_def)
qed

text \<open>
  Claim C6, amended. The builder has no failure for a configuration: for every grid count
  up to the largest length of an array, a grid count below 2 included, the constructor
  returns a strategy holding that configuration, with as many levels as the loop has
  rounds (the grid count rounded up) -- none when the grid count is 0, negative or not a
  number, and when it is 1 a single level, whose price is \<^verbatim>\<open>NaN\<close>. Only for a grid count
  above \<open>2^32 - 1\<close> does construction throw, and then a \<^verbatim>\<open>RangeError\<close> of the array.
\<close>

theorem builder_never_fails:
  "new_GridTradingStrategy c \<noteq> Inl InvalidConfiguration \<and>
   (new_GridTradingStrategy c = Inl RangeError \<longleftrightarrow> js_lt (Fin 4294967295) (gridCount c)) \<and>
   (\<not> js_lt (Fin 4294967295) (gridCount c) \<longrightarrow>
      (\<exists>s. new_GridTradingStrategy c = Inr s \<and> config s = c \<and>
         length (gridLevels s) = rounds (gridCount c) \<and>
         (\<not> js_lt (Fin 0) (gridCount c) \<longrightarrow> gridLevels s = []) \<and>
         (gridCount c = Fin 1 \<longrightarrow> map price (gridLevels s) = [NaN])))"
proof (cases "js_lt (Fin 4294967295) (gridCount c)")
  case True
  then show ?thesis
    by (simp add: new_GridTradingStrategy_eq)
next
  case False
  let ?step = "js_div (js_sub (upperPrice c) (lowerPrice c)) (js_sub (gridCount c) (Fin 1))"
  let ?s = "\<lparr>config = c, gridLevels = map (level_at c ?step) [0..<rounds (gridCount c)],
      isActive = False\<rparr>"
  have new: "new_GridTradingStrategy c = Inr ?s"
    using False by (simp add: new_GridTradingStrategy_eq)
  have none: "\<not> js_lt (Fin 0) (gridCount c) \<longrightarrow> gridLevels ?s = []"
    using js_lt_rounds [OF False, of 0] by simp
  have one: "gridCount c = Fin 1 \<longrightarrow> map price (gridLevels ?s) = [NaN]"
    using level_at_zero_div [of c] by auto
  have "new_GridTradingStrategy c = Inr ?s \<and> config ?s = c \<and>
         length (gridLevels ?s) = rounds (gridCount c) \<and>
         (\<not> js_lt (Fin 0) (gridCount c) \<longrightarrow> gridLevels ?s = []) \<and>
         (gridCount c = Fin 1 \<longrightarrow> map price (gridLevels ?s) = [NaN])"
    using new none one by simp
  then have "\<exists>s. new_GridTradingStrategy c = Inr s \<and> config s = c \<and>
         length (gridLevels s) = rounds (gridCount c) \<and>
         (\<not> js_lt (Fin 0) (gridCount c) \<longrightarrow> gridLevels s = []) \<and>
         (gridCount c = Fin 1 \<longrightarrow> map price (gridLevels s) = [NaN])" ..
  with new False show ?thesis
    by simp
qed

text \<open>The instances of amended C6 at a grid count of 1 and at a grid count of 0.\<close>

theorem builder_never_fails_example:
  "(\<exists>s. new_GridTradingStrategy single_config = Inr s \<and> map price (gridLevels s) = [NaN]) \<and>
   (\<exists>s. new_GridTradingStrategy empty_config = Inr s \<and> gridLevels s = [])"
proof
  have one: "gridCount single_config = Fin 1" "\<not> js_lt (Fin 4294967295) (gridCount single_config)"
    by (simp_all add: single_config_def js_lt_def)
  from builder_never_fails [of single_config] one obtain s where
    "new_GridTradingStrategy single_config = Inr s \<and> config s = single_config \<and>
      length (gridLevels s) = rounds (gridCount single_config) \<and>
      (\<not> js_lt (Fin 0) (gridCount single_config) \<longrightarrow> gridLevels s = []) \<and>
      (gridCount single_config = Fin 1 \<longrightarrow> map price (gridLevels s) = [NaN])"
    by auto
  with one have "new_GridTradingStrategy single_config = Inr s \<and> map price (gridLevels s) = [NaN]"
    by simp
  then show "\<exists>s. new_GridTradingStrategy single_config = Inr s \<and> map price (gridLevels s) = [NaN]" ..
next
  have none: "\<not> js_lt (Fin 0) (gridCount empty_config)"
      "\<not> js_lt (Fin 4294967295) (gridCount empty_config)"
    by (simp_all add: empty_config_def js_lt_def)
  from builder_never_fails [of empty_config] none obtain s where
    "new_GridTradingStrategy empty_config = Inr s \<and> config s = empty_config \<and>
      length (gridLevels s) = rounds (gridCount empty_config) \<and>
      (\<not> js_lt (Fin 0) (gridCount empty_config) \<longrightarrow> gridLevels s = []) \<and>
      (gridCount empty_config = Fin 1 \<longrightarrow> map price (gridLevels s) = [NaN])"
    by auto
  with none have "new_GridTradingStrategy empty_config = Inr s \<and> gridLevels s = []"
    by simp
  then show "\<exists>s. new_GridTradingStrategy empty_config = Inr s \<and> gridLevels s = []" ..
qed

subsection \<open>Operations on non-negative numbers\<close>

lemma threshold_pos: "0 < overflow_threshold"
  using threshold_gt by (simp add: order.strict_trans2 [OF _ less_imp_le])

lemma round_double_nonpos: "x \<le> 0 \<Longrightarrow> round_double x \<le> 0"
  using round_double_nonneg [of "- x"] by (simp add: round_double_minus)

lemma sign_neg_to_double: "sign_neg (to_double s x) \<longleftrightarrow> x < 0 \<or> (x = 0 \<and> s)"
proof -
  consider "overflow_threshold \<le> \<bar>x\<bar>" | "\<bar>x\<bar> < overflow_threshold" "round_double x = 0"
    | "\<bar>x\<bar> < overflow_threshold" "round_double x \<noteq> 0"
    by linarith
  then show ?thesis
  proof cases
    case 1
    then show ?thesis
      using threshold_pos by (auto simp add: to_double_def)
  next
    case 2
    then show ?thesis
      by (auto simp add: to_double_def)
  next
    case 3
    then have nz: "x \<noteq> 0" by auto
    have "round_double x < 0 \<longleftrightarrow> x < 0"
    proof (cases "x < 0")
      case True
      with round_double_nonpos [of x] 3(2) show ?thesis by simp
    next
      case False
      with round_double_nonneg [of x] show ?thesis by simp
    qed
    with 3 nz show ?thesis
      by (simp add: to_double_def)
  qed
qed

lemma round_double_bounds:
  "0 \<le> x \<Longrightarrow> x \<le> 2 ^ j \<Longrightarrow> j \<le> 1023 \<Longrightarrow> 0 \<le> round_double x \<and> round_double x \<le> 2 ^ j"
  using round_double_nonneg [of x] round_double_le_pow2 [of x j] by simp

lemma pow2_below_threshold: "j \<le> 1023 \<Longrightarrow> (2::real) ^ j < overflow_threshold"
proof -
  assume "j \<le> 1023"
  then have "(2::real) ^ j \<le> 2 ^ 1023"
    by (rule power_increasing) simp
  with threshold_gt show ?thesis by linarith
qed

lemma to_double_small:
  "0 \<le> x \<Longrightarrow> x \<le> 2 ^ j \<Longrightarrow> j \<le> 1023 \<Longrightarrow> to_double False x = Fin (round_double x)"
  using pow2_below_threshold [of j] by (simp add: to_double_nonneg)

lemma js_add_nonneg: "0 \<le> a \<Longrightarrow> 0 \<le> b \<Longrightarrow> js_add (Fin a) (Fin b) = to_double False (a + b)"
  by (simp add: js_add_def)

lemma js_sub_nonneg: "0 \<le> b \<Longrightarrow> b \<le> a \<Longrightarrow> js_sub (Fin a) (Fin b) = to_double False (a - b)"
  by (simp add: js_sub_def js_add_def)

lemma js_mul_nonneg: "0 \<le> a \<Longrightarrow> 0 \<le> b \<Longrightarrow> js_mul (Fin a) (Fin b) = to_double False (a * b)"
  by (simp add: js_mul_def)

lemma js_div_nonneg: "0 \<le> a \<Longrightarrow> 0 < b \<Longrightarrow> js_div (Fin a) (Fin b) = to_double False (a / b)"
  by (simp add: js_div_def)

subsection \<open>Printing with a fixed number of decimals\<close>

lemma toFixed_finite: "is_finite a \<Longrightarrow> toFixed a d = toFixed (Fin (val a)) d"
  by (cases a) (simp_all add: toFixed_def toFixed_string_def)

lemma round_half_up_nonneg: "0 \<le> y \<Longrightarrow> 0 \<le> round_half_up d y"
  by (simp add: round_half_up_def)

lemma round_half_up_le: "0 \<le> y \<Longrightarrow> of_int (round_half_up d y) / 10 ^ d \<le> y + 1"
proof -
  assume y: "0 \<le> y"
  have "of_int (round_half_up d y) \<le> y * 10 ^ d + 1 / 2"
    unfolding round_half_up_def by linarith
  also have "\<dots> \<le> y * 10 ^ d + 10 ^ d"
  proof -
    have "(1::real) \<le> 10 ^ d" by simp
    then show ?thesis by linarith
  qed
  also have "\<dots> = (y + 1) * 10 ^ d"
    by (simp add: algebra_simps)
  finally show ?thesis
    by (simp add: pos_divide_le_eq)
qed

lemma nearest_decimal_nonneg:
  "0 \<le> y \<Longrightarrow> nearest_decimal d y = of_int (round_half_up d y) / 10 ^ d"
  by (cases "y = 0") (simp_all add: nearest_decimal_def round_half_up_def)

lemma ten21_le: "(10::real) ^ 21 + 1 \<le> 2 ^ 1023"
  by simp

lemma toFixed_nonneg:
  assumes "0 \<le> y"
  shows "toFixed (Fin y) d = Fin (to_decimals d y)"
proof (cases "10 ^ 21 \<le> y")
  case True
  with assms show ?thesis
    by (simp add: toFixed_def toFixed_string_def to_decimals_def)
next
  case False
  let ?x = "of_int (round_half_up d y) / 10 ^ d :: real"
  have nonneg: "0 \<le> ?x"
    using round_half_up_nonneg [OF assms, of d] by simp
  have "?x \<le> y + 1"
    using assms by (rule round_half_up_le)
  with False have "?x \<le> 2 ^ 1023"
    using ten21_le by linarith
  with nonneg have "to_double False ?x = Fin (round_double ?x)"
    using to_double_small [of ?x 1023] by simp
  with False assms show ?thesis
    by (simp add: toFixed_def toFixed_string_def nearest_decimal_nonneg to_decimals_def)
qed

section \<open>The sell target\<close>

lemma getProfitPrice_eq:
  assumes p: "profitPerGrid (config s) = Fin p" and small: "\<bar>p\<bar> \<le> 2 ^ 1000"
  shows "getProfitPrice s (Fin b) =
    to_double ((b < 0) \<noteq> (1 + round_double (p / 100) < 0))
      (b * round_double (1 + round_double (p / 100)))"
proof -
  let ?q = "round_double (p / 100)"
  have "\<bar>p / 100\<bar> \<le> \<bar>p\<bar>" by simp
  with small have "\<bar>p / 100\<bar> \<le> 2 ^ 1000" by linarith
  then have q: "\<bar>?q\<bar> \<le> 2 ^ 1000"
    by (rule round_double_le_pow2) simp
  have fin_q: "\<bar>p / 100\<bar> < overflow_threshold"
    using \<open>\<bar>p / 100\<bar> \<le> 2 ^ 1000\<close> pow2_below_threshold [of 1000] by simp
  have div: "js_div (Fin p) (Fin 100) = to_double (p < 0) (p / 100)"
    by (simp add: js_div_def)
  have "\<bar>1 + ?q\<bar> \<le> 2 ^ 1000 + 2 ^ 1000"
    using q by (simp add: abs_le_iff)
  then have "\<bar>1 + ?q\<bar> \<le> 2 ^ 1001" by simp
  then have fin_m: "\<bar>1 + ?q\<bar> < overflow_threshold"
    using pow2_below_threshold [of 1001] by simp
  have add: "js_add (Fin 1) (js_div (Fin p) (Fin 100)) = to_double False (1 + ?q)"
    unfolding div using fin_q by (simp add: js_add_def is_finite_to_double val_to_double)
  have "js_mul (Fin b) (to_double False (1 + ?q)) =
      to_double ((b < 0) \<noteq> (1 + ?q < 0)) (b * round_double (1 + ?q))"
    using fin_m by (simp add: js_mul_def is_finite_to_double val_to_double sign_neg_to_double)
  then show ?thesis
    by (simp add: getProfitPrice_def p add)
qed

lemma getProfitPrice_valid:
  assumes p: "profitPerGrid (config s) = Fin p" and range: "0 \<le> p" "p \<le> 10"
    and b: "0 \<le> b" "b \<le> 2 ^ 1000"
  shows "getProfitPrice s (Fin b) = Fin (round_double (b * round_double (1 + round_double (p / 100))))"
proof -
  let ?q = "round_double (p / 100)"
  have "0 \<le> p / 100" "p / 100 \<le> 2 ^ 0"
    using range by simp_all
  then have q: "0 \<le> ?q" "?q \<le> 1"
    using round_double_bounds [of "p / 100" 0] by simp_all
  then have "0 \<le> 1 + ?q" "1 + ?q \<le> 2 ^ 1" by simp_all
  then have m: "0 \<le> round_double (1 + ?q)" "round_double (1 + ?q) \<le> 2"
    using round_double_bounds [of "1 + ?q" 1] by simp_all
  have nonneg: "0 \<le> b * round_double (1 + ?q)"
    using b(1) m(1) by simp
  have "b * round_double (1 + ?q) \<le> 2 ^ 1000 * 2"
    using b m by (intro mult_mono) simp_all
  then have "b * round_double (1 + ?q) \<le> 2 ^ 1001" by simp
  with nonneg have "to_double False (b * round_double (1 + ?q)) =
      Fin (round_double (b * round_double (1 + ?q)))"
    using to_double_small [of "b * round_double (1 + ?q)" 1001] by simp
  moreover have "\<bar>p\<bar> \<le> 2 ^ 1000"
  proof -
    have "(10::real) \<le> 2 ^ 1000" by simp
    with range show ?thesis by simp
  qed
  ultimately show ?thesis
    using getProfitPrice_eq [OF p, of b] b(1) q(1) by simp
qed

text \<open>
  Claim C3 does not hold of the code as an equation between numbers: at a profit of 10 per
  cent a buy at 100 gives the sell target \<open>110 + 2^-46\<close>, which prints as
  110.00000000000001, and not 110.
\<close>

theorem profit_price_inexact:
  "profitPerGrid (config ten_percent_strategy) = Fin 10 \<and>
   new_GridTradingStrategy ten_percent_config = Inr ten_percent_strategy \<and>
   getProfitPrice ten_percent_strategy (Fin 100) = Fin (110 + 1 / 2 ^ 46) \<and>
   getProfitPrice ten_percent_strategy (Fin 100) \<noteq> Fin (100 * (1 + 10 / 100))"
proof -
  have "new_GridTradingStrategy ten_percent_config = Inr ten_percent_strategy"
    by (simp add: new_GridTradingStrategy_def initializeGrid_def ten_percent_config_def
        ten_percent_strategy_def initializeGrid_loop.simps eval_simps)
  moreover have "getProfitPrice ten_percent_strategy (Fin 100) = Fin (110 + 1 / 2 ^ 46)"
    by (simp add: getProfitPrice_def ten_percent_strategy_def ten_percent_config_def eval_simps)
  ultimately show ?thesis
    by (simp add: ten_percent_strategy_def ten_percent_config_def)
qed

text \<open>
  Claim C3, amended. \<^verbatim>\<open>getProfitPrice\<close> evaluates \<open>buyPrice * (1 + profitPerGrid / 100)\<close>
  in double arithmetic, rounding the quotient, the sum and the product each to the nearest
  double. For a profit between 0 and 10 per cent and a buy price between 0 and \<open>2^1000\<close>
  the result is the finite number below; for every finite profit up to \<open>2^1000\<close> in size
  and every finite buy price it is the double of the product, which is an infinity when
  the product overflows and a signed zero when it vanishes. For the example configuration
  the constructor builds the levels 40000, 41000 and 42000, the order size is 100, and a
  buy filled at 41000 gives the sell target 41410, all exactly.
\<close>

theorem profit_price:
  "(\<forall>p b. profitPerGrid (config s) = Fin p \<and> 0 \<le> p \<and> p \<le> 10 \<and> 0 \<le> b \<and> b \<le> 2 ^ 1000 \<longrightarrow>
      getProfitPrice s (Fin b) =
        Fin (round_double (b * round_double (1 + round_double (p / 100))))) \<and>
   (\<forall>p b. profitPerGrid (config s) = Fin p \<and> \<bar>p\<bar> \<le> 2 ^ 1000 \<longrightarrow>
      getProfitPrice s (Fin b) =
        to_double ((b < 0) \<noteq> (1 + round_double (p / 100) < 0))
          (b * round_double (1 + round_double (p / 100)))) \<and>
   new_GridTradingStrategy example_config = Inr example_strategy \<and>
   map price (getGridLevels example_strategy) = [Fin 40000, Fin 41000, Fin 42000] \<and>
   getOrderSize example_strategy = Fin 100 \<and>
   getProfitPrice example_strategy (Fin 41000) = Fin 41410"
proof -
  have levels: "map price (getGridLevels example_strategy) = [Fin 40000, Fin 41000, Fin 42000]"
    by (simp add: getGridLevels_def example_strategy_def)
  have size: "getOrderSize example_strategy = Fin 100"
    by (simp add: getOrderSize_def example_strategy_def example_config_def eval_simps)
  have sell: "getProfitPrice example_strategy (Fin 41000) = Fin 41410"
    by (simp add: getProfitPrice_def example_strategy_def example_config_def eval_simps)
  from getProfitPrice_valid [of s] getProfitPrice_eq [of s] new_example levels size sell
  show ?thesis
    by blast
qed

text \<open>
  The instance of amended C3 at the example strategy and the buy price 41000, and at a
  profit of 10 per cent and the buy price 100.
\<close>

theorem profit_price_example:
  "getProfitPrice example_strategy (Fin 41000) =
     Fin (round_double (41000 * round_double (1 + round_double (1 / 100)))) \<and>
   round_double (1 / 100) = 5764607523034235 / 576460752303423488 \<and>
   round_double (1 + round_double (1 / 100)) = 4548635623644201 / 4503599627370496 \<and>
   round_double (41000 * round_double (1 + round_double (1 / 100))) = 41410 \<and>
   getProfitPrice ten_percent_strategy (Fin 100) =
     Fin (round_double (100 * round_double (1 + round_double (10 / 100)))) \<and>
   round_double (100 * round_double (1 + round_double (10 / 100))) = 110 + 1 / 2 ^ 46"
proof -
  have p: "profitPerGrid (config example_strategy) = Fin 1"
    by (simp add: example_strategy_def example_config_def)
  have p10: "profitPerGrid (config ten_percent_strategy) = Fin 10"
    by (simp add: ten_percent_strategy_def ten_percent_config_def)
  have one: "getProfitPrice example_strategy (Fin 41000) =
     Fin (round_double (41000 * round_double (1 + round_double (1 / 100))))"
    by (rule profit_price [of example_strategy, THEN conjunct1, rule_format, of 1 41000])
      (simp add: p)
  have ten: "getProfitPrice ten_percent_strategy (Fin 100) =
     Fin (round_double (100 * round_double (1 + round_double (10 / 100))))"
    by (rule profit_price [of ten_percent_strategy, THEN conjunct1, rule_format, of 10 100])
      (simp add: p10)
  have q: "round_double (1 / 100) = 5764607523034235 / 576460752303423488"
    by (simp add: eval_simps)
  have m: "round_double (1 + round_double (1 / 100)) = 4548635623644201 / 4503599627370496"
    by (simp add: eval_simps)
  have r: "round_double (41000 * round_double (1 + round_double (1 / 100))) = 41410"
    by (simp add: eval_simps)
  have t: "round_double (100 * round_double (1 + round_double (10 / 100))) = 110 + 1 / 2 ^ 46"
    by (simp add: eval_simps)
  show ?thesis
    by (intro conjI one q m r ten t)
qed

section \<open>Metrics\<close>

lemma double_of_nonneg:
  assumes "0 \<le> x" "x \<le> 2 ^ j" "j \<le> 1023"
  shows "to_double False x = Fin (round_double x) \<and> 0 \<le> round_double x \<and> round_double x \<le> 2 ^ j"
  using to_double_small [OF assms] round_double_bounds [OF assms] by simp

lemma round_double_1: "round_double 1 = 1"
  using round_double_pow2 [of 0] by simp

lemma round_double_ge_1: "1 \<le> x \<Longrightarrow> 1 \<le> round_double x"
  using round_double_mono [of 1 x] by (simp add: round_double_1)

lemma le_mult_ge_1:
  fixes a :: real
  shows "0 \<le> a \<Longrightarrow> 1 \<le> g \<Longrightarrow> a \<le> a * g"
  using mult_left_mono [of 1 g a] by simp

lemma divide_ge_1_le:
  fixes a :: real
  shows "0 \<le> a \<Longrightarrow> 1 \<le> g \<Longrightarrow> a / g \<le> a"
  using le_mult_ge_1 [of a g] by (simp add: divide_le_eq)

lemma priceStep_eq:
  assumes "gridCount c = Fin g" "upperPrice c = Fin u" "lowerPrice c = Fin l"
    and g: "2 \<le> g" "g \<le> 2 ^ 500" and l: "0 \<le> l" "l \<le> u" and u: "u \<le> 2 ^ 500"
  shows "js_div (js_sub (upperPrice c) (lowerPrice c)) (js_sub (gridCount c) (Fin 1)) =
      Fin (round_double (round_double (u - l) / round_double (g - 1))) \<and>
    0 \<le> round_double (round_double (u - l) / round_double (g - 1))"
proof -
  let ?A = "round_double (u - l)" and ?G = "round_double (g - 1)"
  have "0 \<le> u - l" "u - l \<le> 2 ^ 500"
    using l u by simp_all
  from double_of_nonneg [OF this] have A: "to_double False (u - l) = Fin ?A" "0 \<le> ?A" "?A \<le> 2 ^ 500"
    by simp_all
  have "0 \<le> g - 1" "g - 1 \<le> 2 ^ 500"
    using g by simp_all
  from double_of_nonneg [OF this] have G: "to_double False (g - 1) = Fin ?G"
    by simp
  have G1: "1 \<le> ?G"
    using g by (intro round_double_ge_1) simp
  have "?A / ?G \<le> ?A"
    using A(2) G1 by (rule divide_ge_1_le)
  then have "0 \<le> ?A / ?G" "?A / ?G \<le> 2 ^ 500"
    using A G1 by simp_all
  from double_of_nonneg [OF this] have Q: "to_double False (?A / ?G) = Fin (round_double (?A / ?G))"
      "0 \<le> round_double (?A / ?G)"
    by simp_all
  have "js_sub (Fin u) (Fin l) = Fin ?A"
    using l by (simp add: js_sub_nonneg A)
  moreover have "js_sub (Fin g) (Fin 1) = Fin ?G"
    using g by (simp add: js_sub_nonneg G)
  moreover have "js_div (Fin ?A) (Fin ?G) = Fin (round_double (?A / ?G))"
    using A(2) G1 by (simp add: js_div_nonneg Q)
  ultimately show ?thesis
    using Q(2) by (simp add: assms(1-3))
qed

lemma orderSize_eq:
  assumes "gridCount c = Fin g" "investment c = Fin a"
    and g: "1 \<le> g" and a: "0 \<le> a" "a \<le> 2 ^ 500"
  shows "js_div (investment c) (gridCount c) = Fin (round_double (a / g)) \<and>
    0 \<le> round_double (a / g)"
proof -
  have "a / g \<le> a"
    using a(1) g by (rule divide_ge_1_le)
  then have "0 \<le> a / g" "a / g \<le> 2 ^ 500"
    using a g by simp_all
  from double_of_nonneg [OF this] have Q: "to_double False (a / g) = Fin (round_double (a / g))"
      "0 \<le> round_double (a / g)"
    by simp_all
  have "js_div (Fin a) (Fin g) = Fin (round_double (a / g))"
    using a(1) g by (simp add: js_div_nonneg Q)
  then show ?thesis
    using Q(2) by (simp add: assms(1,2))
qed

lemma totalPotentialProfit_eq:
  assumes "investment c = Fin a" "profitPerGrid c = Fin p"
    and a: "0 \<le> a" "a \<le> 2 ^ 500" and p: "0 \<le> p" "p \<le> 2 ^ 500"
  shows "js_div (js_mul (investment c) (profitPerGrid c)) (Fin 100) =
      Fin (round_double (round_double (a * p) / 100)) \<and>
    0 \<le> round_double (round_double (a * p) / 100)"
proof -
  let ?M = "round_double (a * p)"
  have "a * p \<le> 2 ^ 500 * 2 ^ 500"
    using a p by (intro mult_mono) simp_all
  then have "0 \<le> a * p" "a * p \<le> 2 ^ 1000"
    using a p by (simp_all add: power_add [symmetric])
  from double_of_nonneg [OF this] have M: "to_double False (a * p) = Fin ?M" "0 \<le> ?M" "?M \<le> 2 ^ 1000"
    by simp_all
  then have "0 \<le> ?M / 100" "?M / 100 \<le> 2 ^ 1000"
    by simp_all
  from double_of_nonneg [OF this] have Q: "to_double False (?M / 100) = Fin (round_double (?M / 100))"
      "0 \<le> round_double (?M / 100)"
    by simp_all
  have "js_mul (Fin a) (Fin p) = Fin ?M"
    using a p by (simp add: js_mul_nonneg M)
  moreover have "js_div (Fin ?M) (Fin 100) = Fin (round_double (?M / 100))"
    using M(2) by (simp add: js_div_nonneg Q)
  ultimately show ?thesis
    using Q(2) by (simp add: assms(1,2))
qed

lemma priceRange_eq:
  assumes "upperPrice c = Fin u" "lowerPrice c = Fin l"
    and l: "1 / 2 ^ 500 \<le> l" "l \<le> u" and u: "u \<le> 2 ^ 500"
  shows "js_mul (js_div (js_sub (upperPrice c) (lowerPrice c)) (lowerPrice c)) (Fin 100) =
      Fin (round_double (round_double (round_double (u - l) / l) * 100)) \<and>
    0 \<le> round_double (round_double (round_double (u - l) / l) * 100)"
proof -
  let ?A = "round_double (u - l)"
  let ?R = "round_double (?A / l)"
  have lpos: "0 < l"
    using l(1) by (rule order.strict_trans2 [rotated]) simp
  have "0 \<le> u - l" "u - l \<le> 2 ^ 500"
    using l u lpos by simp_all
  from double_of_nonneg [OF this] have A: "to_double False (u - l) = Fin ?A" "0 \<le> ?A" "?A \<le> 2 ^ 500"
    by simp_all
  have "1 \<le> l * 2 ^ 500"
    using l(1) by (simp add: divide_le_eq)
  with A(2) have "?A \<le> ?A * (l * 2 ^ 500)"
    by (rule le_mult_ge_1)
  also have "\<dots> \<le> 2 ^ 500 * (l * 2 ^ 500)"
    using A(3) lpos by (intro mult_right_mono) simp_all
  also have "\<dots> = 2 ^ 1000 * l"
    by (simp add: power_add [symmetric])
  finally have "?A / l \<le> 2 ^ 1000"
    using lpos by (simp add: divide_le_eq)
  moreover have "0 \<le> ?A / l"
    using A(2) lpos by simp
  ultimately have R: "to_double False (?A / l) = Fin ?R" "0 \<le> ?R" "?R \<le> 2 ^ 1000"
    using double_of_nonneg [of "?A / l" 1000] by simp_all
  have "?R * 100 \<le> 2 ^ 1000 * 2 ^ 7"
    using R by (intro mult_mono) simp_all
  then have "0 \<le> ?R * 100" "?R * 100 \<le> 2 ^ 1007"
    using R(2) by (simp_all add: power_add [symmetric])
  from double_of_nonneg [OF this] have Q: "to_double False (?R * 100) = Fin (round_double (?R * 100))"
      "0 \<le> round_double (?R * 100)"
    by simp_all
  have "js_sub (Fin u) (Fin l) = Fin ?A"
    using l lpos by (simp add: js_sub_nonneg A)
  moreover have "js_div (Fin ?A) (Fin l) = Fin ?R"
    using A(2) lpos by (simp add: js_div_nonneg R)
  moreover have "js_mul (Fin ?R) (Fin 100) = Fin (round_double (?R * 100))"
    using R(2) by (simp add: js_mul_nonneg Q)
  ultimately show ?thesis
    using Q(2) by (simp add: assms(1,2))
qed

lemma averagePrice_eq:
  assumes "upperPrice c = Fin u" "lowerPrice c = Fin l"
    and l: "0 \<le> l" "l \<le> u" and u: "u \<le> 2 ^ 500"
  shows "js_div (js_add (upperPrice c) (lowerPrice c)) (Fin 2) =
      Fin (round_double (round_double (u + l) / 2)) \<and>
    0 \<le> round_double (round_double (u + l) / 2)"
proof -
  let ?S = "round_double (u + l)"
  have "u + l \<le> 2 ^ 500 + 2 ^ 500"
    using l u by simp
  then have "0 \<le> u + l" "u + l \<le> 2 ^ 501"
    using l by simp_all
  from double_of_nonneg [OF this] have S: "to_double False (u + l) = Fin ?S" "0 \<le> ?S" "?S \<le> 2 ^ 501"
    by simp_all
  then have "0 \<le> ?S / 2" "?S / 2 \<le> 2 ^ 501"
    by simp_all
  from double_of_nonneg [OF this] have Q: "to_double False (?S / 2) = Fin (round_double (?S / 2))"
      "0 \<le> round_double (?S / 2)"
    by simp_all
  have "js_add (Fin u) (Fin l) = Fin ?S"
    using l by (simp add: js_add_nonneg S)
  moreover have "js_div (Fin ?S) (Fin 2) = Fin (round_double (?S / 2))"
    using S(2) by (simp add: js_div_nonneg Q)
  ultimately show ?thesis
    using Q(2) by (simp add: assms(1,2))
qed

lemma calculateGridMetrics_fields:
  "priceStep (calculateGridMetrics c) =
     toFixed (js_div (js_sub (upperPrice c) (lowerPrice c)) (js_sub (gridCount c) (Fin 1))) 6 \<and>
   orderSize (calculateGridMetrics c) = toFixed (js_div (investment c) (gridCount c)) 2 \<and>
   totalPotentialProfit (calculateGridMetrics c) =
     toFixed (js_div (js_mul (investment c) (profitPerGrid c)) (Fin 100)) 2 \<and>
   priceRange (calculateGridMetrics c) =
     toFixed (js_mul (js_div (js_sub (upperPrice c) (lowerPrice c)) (lowerPrice c)) (Fin 100)) 2 \<and>
   averagePrice (calculateGridMetrics c) =
     toFixed (js_div (js_add (upperPrice c) (lowerPrice c)) (Fin 2)) 2"
  by (simp add: calculateGridMetrics_def Let_def)

lemma isValid_huge: "isValid (validateGridConfig huge_config)"
proof -
  have "(2::real) \<le> 2 ^ 1023 / 3"
    by simp
  then have "round_double 2 \<le> round_double (2 ^ 1023 / 3)"
    by (rule round_double_mono)
  then have "2 \<le> round_double (2 ^ 1023 / 3)"
    by (simp only: round_double_2)
  moreover have "round_double (1 / 10) \<le> 2"
    using round_double_bounds [of "1 / 10" 1] by simp
  ultimately show ?thesis
    using isValid_finite [of huge_config "2 ^ 1023" 3 42000 40000 2]
    by (simp add: huge_config_def)
qed

text \<open>
  Claim C7 does not hold of the code for every configuration: the configuration with an
  investment of \<open>2^1023\<close> and a profit of 2 per cent passes validation, and its total
  potential profit, \<open>2^1023 * 2 / 100\<close>, is a number below \<open>2^1018\<close>; the code returns
  \<^verbatim>\<open>Infinity\<close>, since the product overflows before it is divided.
\<close>

theorem calculateGridMetrics_overflow:
  "isValid (validateGridConfig huge_config) \<and>
   investment huge_config = Fin (2 ^ 1023) \<and> profitPerGrid huge_config = Fin 2 \<and>
   (2 ^ 1023 * 2 / 100 :: real) < 2 ^ 1018 \<and>
   totalPotentialProfit (calculateGridMetrics huge_config) = PosInf"
proof -
  have "js_mul (Fin (2 ^ 1023)) (Fin 2) = PosInf"
    by (simp add: js_mul_def to_double_def overflow_threshold_def)
  then have "totalPotentialProfit (calculateGridMetrics huge_config) = PosInf"
    by (simp add: calculateGridMetrics_def huge_config_def Let_def js_div_def inf_of_def
        toFixed_def toFixed_string_def)
  moreover have "(2 ^ 1023 * 2 / 100 :: real) < 2 ^ 1018"
    by simp
  ultimately show ?thesis
    using isValid_huge by (simp add: huge_config_def)
qed

text \<open>
  Claim C7, amended. \<^verbatim>\<open>calculateGridMetrics\<close> has no failure. For a configuration of
  ordinary size -- a grid count from 2 and prices, investment and profit that are not
  negative, none above \<open>2^500\<close>, with the lower price at least \<open>2^-500\<close> and at most the upper
  price -- every metric is its formula evaluated in double arithmetic, each operation
  rounded to the nearest double, and then rounded to 6 decimals (the price step) or 2
  decimals (the others) by \<^verbatim>\<open>toFixed\<close>: the nearest multiple of \<open>10^-d\<close>, the larger one
  on a tie, read back as the nearest double; a value from \<open>10^21\<close> on is returned as it is
  (\<open>to_decimals\<close>).
\<close>

theorem calculateGridMetrics_rounded:
  assumes "gridCount c = Fin g" "upperPrice c = Fin u" "lowerPrice c = Fin l"
    "investment c = Fin a" "profitPerGrid c = Fin p"
    and "2 \<le> g" "g \<le> 2 ^ 500" "1 / 2 ^ 500 \<le> l" "l \<le> u" "u \<le> 2 ^ 500"
    "0 \<le> a" "a \<le> 2 ^ 500" "0 \<le> p" "p \<le> 2 ^ 500"
  shows "priceStep (calculateGridMetrics c) =
      Fin (to_decimals 6 (round_double (round_double (u - l) / round_double (g - 1)))) \<and>
    orderSize (calculateGridMetrics c) =
      Fin (to_decimals 2 (round_double (a / g))) \<and>
    totalPotentialProfit (calculateGridMetrics c) =
      Fin (to_decimals 2 (round_double (round_double (a * p) / 100))) \<and>
    priceRange (calculateGridMetrics c) =
      Fin (to_decimals 2 (round_double (round_double (round_double (u - l) / l) * 100))) \<and>
    averagePrice (calculateGridMetrics c) =
      Fin (to_decimals 2 (round_double (round_double (u + l) / 2)))"
proof -
  have lpos: "0 \<le> l"
    using assms(8) by (rule order_trans [rotated]) simp
  have g1: "1 \<le> g"
    using assms(6) by simp
  note step = priceStep_eq [OF assms(1,2,3) assms(6,7) lpos assms(9,10)]
  note size = orderSize_eq [OF assms(1,4) g1 assms(11,12)]
  note total = totalPotentialProfit_eq [OF assms(4,5) assms(11,12,13,14)]
  note range = priceRange_eq [OF assms(2,3) assms(8,9,10)]
  note average = averagePrice_eq [OF assms(2,3) lpos assms(9,10)]
  note fields = calculateGridMetrics_fields [of c]
  have 1: "priceStep (calculateGridMetrics c) =
      Fin (to_decimals 6 (round_double (round_double (u - l) / round_double (g - 1))))"
    using fields step toFixed_nonneg [of "round_double (round_double (u - l) / round_double (g - 1))" 6]
    by simp
  have 2: "orderSize (calculateGridMetrics c) =
      Fin (to_decimals 2 (round_double (a / g)))"
    using fields size toFixed_nonneg [of "round_double (a / g)" 2]
    by simp
  have 3: "totalPotentialProfit (calculateGridMetrics c) =
      Fin (to_decimals 2 (round_double (round_double (a * p) / 100)))"
    using fields total toFixed_nonneg [of "round_double (round_double (a * p) / 100)" 2]
    by simp
  have 4: "priceRange (calculateGridMetrics c) =
      Fin (to_decimals 2 (round_double (round_double (round_double (u - l) / l) * 100)))"
    using fields range toFixed_nonneg [of "round_double (round_double (round_double (u - l) / l) * 100)" 2]
    by simp
  have 5: "averagePrice (calculateGridMetrics c) =
      Fin (to_decimals 2 (round_double (round_double (u + l) / 2)))"
    using fields average toFixed_nonneg [of "round_double (round_double (u + l) / 2)" 2]
    by simp
  show ?thesis
    by (intro conjI 1 2 3 4 5)
qed

text \<open>
  The instances of amended C7 at the example configuration, and at an investment of 81 over
  40 grid lines: the quotient 81 / 40 is the double just below 2.025, so that the order
  size is the double of 2.02.
\<close>

theorem calculateGridMetrics_rounded_example:
  "calculateGridMetrics example_config =
     \<lparr>priceStep = Fin 1000, orderSize = Fin 100, totalPotentialProfit = Fin 3,
      priceRange = Fin 5, averagePrice = Fin 41000\<rparr> \<and>
   round_double (81 / 40) < 2025 / 1000 \<and>
   orderSize (calculateGridMetrics halfway_config) = Fin (4548635623644201 / 2251799813685248)"
proof -
  have small: "(2::real) \<le> 3" "(3::real) \<le> 2 ^ 500" "(1::real) / 2 ^ 500 \<le> 40000"
      "(40000::real) \<le> 42000" "(42000::real) \<le> 2 ^ 500" "(0::real) \<le> 300" "(300::real) \<le> 2 ^ 500"
      "(0::real) \<le> 1" "(1::real) \<le> 2 ^ 500" "(2::real) \<le> 40" "(40::real) \<le> 2 ^ 500"
      "(0::real) \<le> 81" "(81::real) \<le> 2 ^ 500"
    by simp_all
  have ex: "gridCount example_config = Fin 3" "upperPrice example_config = Fin 42000"
      "lowerPrice example_config = Fin 40000" "investment example_config = Fin 300"
      "profitPerGrid example_config = Fin 1"
    by (simp_all add: example_config_def)
  have hw: "gridCount halfway_config = Fin 40" "upperPrice halfway_config = Fin 42000"
      "lowerPrice halfway_config = Fin 40000" "investment halfway_config = Fin 81"
      "profitPerGrid halfway_config = Fin 1"
    by (simp_all add: halfway_config_def)
  note e = calculateGridMetrics_rounded [OF ex small(1,2,3,4,5,6,7,8,9)]
  note h = calculateGridMetrics_rounded [OF hw small(10,11,3,4,5,12,13,8,9)]
  have e1: "priceStep (calculateGridMetrics example_config) = Fin 1000"
    by (simp add: e [THEN conjunct1] eval_simps nearest_decimal_def to_decimals_def)
  have e2: "orderSize (calculateGridMetrics example_config) = Fin 100"
    by (simp add: e [THEN conjunct2, THEN conjunct1] eval_simps nearest_decimal_def to_decimals_def)
  have e3: "totalPotentialProfit (calculateGridMetrics example_config) = Fin 3"
    by (simp add: e [THEN conjunct2, THEN conjunct2, THEN conjunct1] eval_simps nearest_decimal_def to_decimals_def)
  have e4: "priceRange (calculateGridMetrics example_config) = Fin 5"
    by (simp add: e [THEN conjunct2, THEN conjunct2, THEN conjunct2, THEN conjunct1]
        eval_simps nearest_decimal_def to_decimals_def)
  have e5: "averagePrice (calculateGridMetrics example_config) = Fin 41000"
    by (simp add: e [THEN conjunct2, THEN conjunct2, THEN conjunct2, THEN conjunct2]
        eval_simps nearest_decimal_def to_decimals_def)
  have h2: "orderSize (calculateGridMetrics halfway_config) =
      Fin (4548635623644201 / 2251799813685248)"
    by (simp add: h [THEN conjunct2, THEN conjunct1] eval_simps nearest_decimal_def to_decimals_def)
  have q: "round_double (81 / 40) < 2025 / 1000"
    by (simp add: eval_simps)
  have "calculateGridMetrics example_config =
     \<lparr>priceStep = Fin 1000, orderSize = Fin 100, totalPotentialProfit = Fin 3,
      priceRange = Fin 5, averagePrice = Fin 41000\<rparr>"
    using e1 e2 e3 e4 e5 by (cases "calculateGridMetrics example_config") simp
  with q h2 show ?thesis
    by (intro conjI)
qed

section \<open>The layout of a valid configuration\<close>























section \<open>Looking a level up by its own price\<close>


lemma js_neg_Fin: "is_finite (js_neg (Fin a)) \<and> val (js_neg (Fin a)) = - a"
  by simp










end
